theory Spec2Isabelle
  imports Main "HOL-Library.Char_ord" "HOL-Library.List_Lexorder"
begin

section \<open>Python strings\<close>

text \<open>
  A Python \<open>str\<close> is modelled as a \<open>string\<close>, one \<open>char\<close> per code point: the texts of the
  model are those over the code points U+0000 .. U+00FF (Latin-1), and \<open>of_char c\<close> is the
  code point of \<open>c\<close>.

  \<open>whitespace\<close> lists the characters of the model for which \<open>str.isspace\<close> holds;
  \<open>str.strip()\<close> and \<open>str.split()\<close> with no argument use that same test. Besides the blank,
  tab, line feed, vertical tab, form feed and carriage return it contains the four
  separators U+001C .. U+001F, the next-line character U+0085 and the no-break space
  U+00A0.
\<close>

definition whitespace :: "char list" where
  "whitespace = [CHR 0x09, CHR 0x0A, CHR 0x0B, CHR 0x0C, CHR 0x0D,
                 CHR 0x1C, CHR 0x1D, CHR 0x1E, CHR 0x1F, CHR '' '', CHR 0x85, CHR 0xA0]"

definition isspace :: "char \<Rightarrow> bool" where
  "isspace c = (c \<in> set whitespace)"

definition py_strip :: "string \<Rightarrow> string" where
  "py_strip s = rev (dropWhile isspace (rev (dropWhile isspace s)))"

text \<open>
  \<open>str.split()\<close>: the maximal runs of non-whitespace characters, in order. \<open>split_acc\<close>
  scans the text once, \<open>cur\<close> being the run read so far.
\<close>

primrec split_acc :: "string \<Rightarrow> string \<Rightarrow> string list" where
  "split_acc cur [] = (if cur = [] then [] else [cur])"
| "split_acc cur (c # cs) =
     (if isspace c then (if cur = [] then split_acc [] cs else cur # split_acc [] cs)
      else split_acc (cur @ [c]) cs)"

definition py_split :: "string \<Rightarrow> string list" where
  "py_split s = split_acc [] s"

definition ascii_uppercase :: string where
  "ascii_uppercase = ''ABCDEFGHIJKLMNOPQRSTUVWXYZ''"

definition ascii_lowercase :: string where
  "ascii_lowercase = ''abcdefghijklmnopqrstuvwxyz''"

definition digits :: string where
  "digits = ''0123456789''"

text \<open>
  \<open>str.lower()\<close>, character by character: the capital letters of the model are \<open>A\<close> .. \<open>Z\<close>
  and U+00C0 .. U+00DE without the multiplication sign U+00D7, and the small letter of each
  is 32 code points further on.
\<close>

definition lower_char :: "char \<Rightarrow> char" where
  "lower_char c =
     (let n = of_char c :: nat
      in if (65 \<le> n \<and> n \<le> 90) \<or> (192 \<le> n \<and> n \<le> 222 \<and> n \<noteq> 215)
         then char_of (n + 32) else c)"

definition py_lower :: "string \<Rightarrow> string" where
  "py_lower s = map lower_char s"

text \<open>
  \<open>str.upper()\<close>, character by character. The result can leave the characters of the model,
  so it is a list of code points: \<open>a\<close> .. \<open>z\<close> and U+00E0 .. U+00FE without the division sign
  U+00F7 go 32 code points back, the sharp s U+00DF becomes \<open>SS\<close>, the micro sign U+00B5
  becomes U+039C, and U+00FF becomes U+0178.
\<close>

type_synonym code_points = "nat list"

definition upper_char :: "char \<Rightarrow> code_points" where
  "upper_char c =
     (let n = of_char c :: nat
      in if (97 \<le> n \<and> n \<le> 122) \<or> (224 \<le> n \<and> n \<le> 254 \<and> n \<noteq> 247) then [n - 32]
         else if n = 223 then [83, 83]
         else if n = 181 then [924]
         else if n = 255 then [376]
         else [n])"

definition py_upper :: "string \<Rightarrow> code_points" where
  "py_upper s = concat (map upper_char s)"


text \<open>\<open>sep.join(xs)\<close>.\<close>

fun py_join :: "string \<Rightarrow> string list \<Rightarrow> string" where
  "py_join sep [] = []"
| "py_join sep [x] = x"
| "py_join sep (x # y # ys) = x @ sep @ py_join sep (y # ys)"

section \<open>Regular expressions as \<open>re.match\<close> reads them\<close>

text \<open>
  The fragment of Python's pattern language that the validator's own patterns use:
  a literal character, a character set (listed character by character, so \<open>[1-9]\<close> is
  \<open>Cls ''123456789''\<close> and \<open>\d\<close>, on the texts of the model, is \<open>Cls digits\<close>), the anchors \<open>^\<close> and
  \<open>$\<close>, sequence, alternation \<open>|\<close>, \<open>?\<close>, \<open>*\<close> and the bounded repetition \<open>{m,n}\<close>.
\<close>

datatype rx =
    Lit char
  | Cls "char list"
  | Bol
  | Eol
  | Seq rx rx
  | Alt rx rx
  | Opt rx
  | Star rx
  | Rep nat nat rx

text \<open>
  A position of the matcher in the subject: whether it is still at the very start, and
  the text that remains. Without the \<open>MULTILINE\<close> flag \<open>^\<close> matches at the start only, and
  \<open>$\<close> matches at the end and also just before a line feed that ends the subject.
\<close>

type_synonym cfg = "bool \<times> string"

text \<open>Exactly \<open>k\<close> rounds of \<open>f\<close>.\<close>

primrec rounds :: "(cfg \<Rightarrow> cfg list) \<Rightarrow> nat \<Rightarrow> cfg \<Rightarrow> cfg list" where
  "rounds f 0 c = [c]"
| "rounds f (Suc k) c = concat (map (rounds f k) (f c))"

text \<open>
  Any number of rounds of \<open>f\<close>, each of which consumes at least one character (a round that
  consumes nothing leads to no new position). At most \<open>k\<close> rounds are followed; from a
  position with \<open>k\<close> characters left there cannot be more.
\<close>

primrec star :: "(cfg \<Rightarrow> cfg list) \<Rightarrow> nat \<Rightarrow> cfg \<Rightarrow> cfg list" where
  "star f 0 c = [c]"
| "star f (Suc k) c =
     c # concat (map (star f k) (filter (\<lambda>c'. length (snd c') < length (snd c)) (f c)))"

text \<open>
  \<open>rems r c\<close>: every position at which a match of \<open>r\<close> that starts at \<open>c\<close> can end. Python's
  engine explores the same positions by backtracking; it prefers some over others, which
  matters for the groups of a match but not for whether there is one.
\<close>

primrec rems :: "rx \<Rightarrow> cfg \<Rightarrow> cfg list" where
  "rems (Lit x) c = (case snd c of [] \<Rightarrow> [] | y # t \<Rightarrow> if y = x then [(False, t)] else [])"
| "rems (Cls xs) c = (case snd c of [] \<Rightarrow> [] | y # t \<Rightarrow> if y \<in> set xs then [(False, t)] else [])"
| "rems Bol c = (if fst c then [c] else [])"
| "rems Eol c = (if snd c = [] \<or> snd c = [CHR 0x0A] then [c] else [])"
| "rems (Seq a b) c = concat (map (rems b) (rems a c))"
| "rems (Alt a b) c = rems a c @ rems b c"
| "rems (Opt a) c = rems a c @ [c]"
| "rems (Star a) c = star (rems a) (length (snd c)) c"
| "rems (Rep lo hi a) c = concat (map (\<lambda>k. rounds (rems a) k c) [lo ..< Suc hi])"

text \<open>\<open>re.match(r, s)\<close> finds a match: one that starts at the start of \<open>s\<close>, wherever it ends.\<close>

definition re_match :: "rx \<Rightarrow> string \<Rightarrow> bool" where
  "re_match r s = (rems r (True, s) \<noteq> [])"

text \<open>\<open>re.fullmatch(r, s)\<close> finds a match: one that starts at the start of \<open>s\<close> and ends at its end.\<close>

definition re_fullmatch :: "rx \<Rightarrow> string \<Rightarrow> bool" where
  "re_fullmatch r s = list_ex (\<lambda>c. snd c = []) (rems r (True, s))"

subsection \<open>The patterns of the validator\<close>

definition letter :: rx where
  "letter = Cls (ascii_uppercase @ ascii_lowercase)"

definition digit :: rx where
  "digit = Cls digits"

text \<open>\<^verbatim>\<open>^(0[1-9]|1[0-2])/(0[1-9]|[12][0-9]|3[01])/\d{4}$\<close>\<close>

definition date_rx :: rx where
  "date_rx =
     Seq Bol
    (Seq (Alt (Seq (Lit (CHR ''0'')) (Cls ''123456789''))
              (Seq (Lit (CHR ''1'')) (Cls ''012'')))
    (Seq (Lit (CHR ''/''))
    (Seq (Alt (Seq (Lit (CHR ''0'')) (Cls ''123456789''))
         (Alt (Seq (Cls ''12'') (Cls ''0123456789''))
              (Seq (Lit (CHR ''3'')) (Cls ''01''))))
    (Seq (Lit (CHR ''/''))
    (Seq (Rep 4 4 digit)
         Eol)))))"

text \<open>\<^verbatim>\<open>^\d{2}:\d{2}$\<close>\<close>

definition time_rx :: rx where
  "time_rx = Seq Bol (Seq (Rep 2 2 digit) (Seq (Lit (CHR '':'')) (Seq (Rep 2 2 digit) Eol)))"

text \<open>\<^verbatim>\<open>^[A-Za-z]{1,4}$\<close> and \<^verbatim>\<open>^[A-Za-z](\.[A-Za-z])*\.?$\<close>, the two alternatives of the
  pattern for initials, and the pattern itself.\<close>

definition bare_rx :: rx where
  "bare_rx = Seq Bol (Seq (Rep 1 4 letter) Eol)"

definition dotted_rx :: rx where
  "dotted_rx =
     Seq Bol (Seq letter (Seq (Star (Seq (Lit (CHR ''.'')) letter)) (Seq (Opt (Lit (CHR ''.''))) Eol)))"

definition initials_rx :: rx where
  "initials_rx = Alt bare_rx dotted_rx"

section \<open>The subject identifier\<close>

text \<open>The dict that \<open>_validate_subject_id\<close> returns, with its keys \<open>row\<close>, \<open>value\<close>, \<open>type\<close>
  and \<open>error\<close>.\<close>

record subject_result =
  s_row :: nat
  s_value :: string
  s_type :: string
  s_error :: string

definition validate_subject_id :: "string \<Rightarrow> nat \<Rightarrow> subject_result option" where
  \<open>validate_subject_id v row_num =
     (if v = [] \<or> py_strip v = [] then None
      else
        let val = py_strip v in
        if py_lower val \<in> set [''unknown'', ''unk''] then
          Some \<lparr>s_row = row_num, s_value = val, s_type = ''unknown'',
                s_error = ''Subject ID should not be "unknown"''\<rparr>
        else if CHR '' '' \<in> set val \<and>
                (let parts = py_split val
                 in 2 \<le> length parts \<and> list_ex (\<lambda>p. 3 < length p) parts) then
          Some \<lparr>s_row = row_num, s_value = val, s_type = ''name'',
                s_error = ''Subject ID appears to be a full name. Use initials instead''\<rparr>
        else if \<not> re_match initials_rx val then
          Some \<lparr>s_row = row_num, s_value = val, s_type = ''invalid'',
                s_error = ''Subject ID must be initials (e.g., "JD", "J.D.", "J.D.S")''\<rparr>
        else None)\<close>

section \<open>The template and the library\<close>

text \<open>
  A validation rule is a JSON object of the template. The record has the keys that
  \<open>_validate_field\<close> reads, each present (\<open>Some\<close>) or absent (\<open>None\<close>), with the types the
  template gives them: \<open>type\<close>, \<open>format\<close>, \<open>pattern\<close> and \<open>description\<close> are strings, \<open>values\<close>
  is a list of strings, \<open>min\<close> and \<open>max\<close> are numbers. \<open>r_other\<close> tells whether the object
  has any further key, one that the code never reads. Python takes the object for false
  only when it is the empty object \<open>{}\<close>: none of the seven keys and no further key. A rule
  always stands for an object, never for \<open>null\<close>.
\<close>

record 'n rule =
  r_type :: "string option"
  r_values :: "string list option"
  r_format :: "string option"
  r_min :: "'n option"
  r_max :: "'n option"
  r_pattern :: "string option"
  r_description :: "string option"
  r_other :: bool

definition is_empty_rule :: "'n rule \<Rightarrow> bool" where
  "is_empty_rule r =
     (r_type r = None \<and> r_values r = None \<and> r_format r = None \<and> r_min r = None \<and>
      r_max r = None \<and> r_pattern r = None \<and> r_description r = None \<and> \<not> r_other r)"

text \<open>The validator object: \<open>self.headers\<close> and \<open>self.validations\<close>.\<close>

record 'n validator =
  headers :: "string list"
  validations :: "string \<rightharpoonup> 'n rule"

text \<open>
  What the code takes from Python's library, as parameters. \<open>'n\<close> is the type of numbers
  (the floats that \<open>float\<close> returns and the numbers of the template).
  \<^item> \<open>py_float s\<close> is \<open>float(s)\<close>, \<open>None\<close> when it raises \<open>ValueError\<close>;
  \<^item> \<open>py_lt a b\<close> is \<open>a < b\<close> (and \<open>a > b\<close> is \<open>py_lt b a\<close>);
  \<^item> \<open>py_str n\<close> is how an f-string prints the number \<open>n\<close>;
  \<^item> \<open>py_re_match p u\<close> tells whether \<open>re.match(p, u)\<close> finds a match, for a pattern \<open>p\<close> given
    as text and a subject \<open>u\<close> given as code points; \<open>None\<close> when \<open>p\<close> does not compile and
    \<open>re.error\<close> is raised. The pattern of a rule is any text of the template, so the
    library's reading of it is a parameter; the three patterns that the code itself
    contains are given above as \<open>rx\<close> values.
\<close>

record 'n pylib =
  py_float :: "string \<Rightarrow> 'n option"
  py_lt :: "'n \<Rightarrow> 'n \<Rightarrow> bool"
  py_str :: "'n \<Rightarrow> string"
  py_re_match :: "string \<Rightarrow> code_points \<Rightarrow> bool option"

datatype py_error = KeyError string | ReError string | TypeError

section \<open>Validating one field\<close>

text \<open>The dict that \<open>_validate_field\<close> returns, with its keys \<open>row\<close>, \<open>column\<close>, \<open>value\<close>,
  \<open>error\<close> and \<open>severity\<close>.\<close>

record field_result =
  f_row :: nat
  f_column :: string
  f_value :: string
  f_error :: string
  f_severity :: string

definition must_be_one_of :: "string list \<Rightarrow> string" where
  "must_be_one_of vs =
     ''Must be one of: '' @ py_join '', '' (take 5 vs) @ (if 5 < length vs then ''...'' else [])"

definition list_validation ::
  "'n rule \<Rightarrow> string \<Rightarrow> string \<Rightarrow> nat \<Rightarrow> py_error + field_result option" where
  "list_validation rule header val row_num =
     (case r_values rule of
        None \<Rightarrow> Inl (KeyError ''values'')
      | Some vs \<Rightarrow>
          if val \<notin> set vs then
            if length vs = 2 \<and> ''Yes'' \<in> set vs \<and> ''No'' \<in> set vs then
              if py_lower val \<notin> set (map py_lower vs)
              then Inr (Some \<lparr>f_row = row_num, f_column = header, f_value = val,
                   f_error = must_be_one_of vs,
                   f_severity = ''error''\<rparr>)
              else Inr None
            else Inr (Some \<lparr>f_row = row_num, f_column = header, f_value = val,
                   f_error = must_be_one_of vs,
                   f_severity = ''error''\<rparr>)
          else Inr None)"

definition date_validation ::
  "'n rule \<Rightarrow> string \<Rightarrow> string \<Rightarrow> nat \<Rightarrow> py_error + field_result option" where
  "date_validation rule header val row_num =
     (if \<not> re_match date_rx val then
        Inr (Some \<lparr>f_row = row_num, f_column = header, f_value = val,
                   f_error = ''Invalid date format. Expected '' @
                     (case r_format rule of Some f \<Rightarrow> f | None \<Rightarrow> ''MM/DD/YYYY''),
                   f_severity = ''error''\<rparr>)
      else Inr None)"

definition time_validation ::
  "'n rule \<Rightarrow> string \<Rightarrow> string \<Rightarrow> nat \<Rightarrow> py_error + field_result option" where
  "time_validation rule header val row_num =
     (if \<not> re_match time_rx val then
        Inr (Some \<lparr>f_row = row_num, f_column = header, f_value = val,
                   f_error = ''Invalid time format. Expected '' @
                     (case r_format rule of Some f \<Rightarrow> f | None \<Rightarrow> ''HH:MM''),
                   f_severity = ''error''\<rparr>)
      else Inr None)"

definition max_check ::
  "'n pylib \<Rightarrow> 'n rule \<Rightarrow> string \<Rightarrow> string \<Rightarrow> nat \<Rightarrow> 'n \<Rightarrow> py_error + field_result option" where
  "max_check lib rule header val row_num num =
     (case r_max rule of
        Some hi \<Rightarrow>
          if py_lt lib hi num
          then Inr (Some \<lparr>f_row = row_num, f_column = header, f_value = val,
                   f_error = ''Value must be <= '' @ py_str lib hi,
                   f_severity = ''error''\<rparr>)
          else Inr None
      | None \<Rightarrow> Inr None)"

definition number_validation ::
  "'n pylib \<Rightarrow> 'n rule \<Rightarrow> string \<Rightarrow> string \<Rightarrow> nat \<Rightarrow> py_error + field_result option" where
  "number_validation lib rule header val row_num =
     (case py_float lib val of
        None \<Rightarrow> Inr (Some \<lparr>f_row = row_num, f_column = header, f_value = val,
                   f_error = ''Must be a number'',
                   f_severity = ''error''\<rparr>)
      | Some num \<Rightarrow>
          (case r_min rule of
             Some lo \<Rightarrow>
               if py_lt lib num lo
               then Inr (Some \<lparr>f_row = row_num, f_column = header, f_value = val,
                   f_error = ''Value must be >= '' @ py_str lib lo,
                   f_severity = ''error''\<rparr>)
               else max_check lib rule header val row_num num
           | None \<Rightarrow> max_check lib rule header val row_num num))"

definition pattern_validation ::
  "'n pylib \<Rightarrow> 'n rule \<Rightarrow> string \<Rightarrow> string \<Rightarrow> nat \<Rightarrow> py_error + field_result option" where
  "pattern_validation lib rule header val row_num =
     (case r_pattern rule of
        None \<Rightarrow> Inl (KeyError ''pattern'')
      | Some p \<Rightarrow>
          (case py_re_match lib p (py_upper val) of
             None \<Rightarrow> Inl (ReError p)
           | Some True \<Rightarrow> Inr None
           | Some False \<Rightarrow>
               Inr (Some \<lparr>f_row = row_num, f_column = header, f_value = val,
                   f_error = (case r_description rule of
                                Some d \<Rightarrow> d
                              | None \<Rightarrow> ''Must match pattern: '' @ p),
                   f_severity = ''error''\<rparr>)))"

text \<open>
  \<open>_validate_field\<close>. \<open>Inl\<close> is an exception that leaves the method, \<open>Inr None\<close> is the
  return value \<open>None\<close>, \<open>Inr (Some f)\<close> a finding.
\<close>

definition validate_field ::
  "'n pylib \<Rightarrow> 'n validator \<Rightarrow> string \<Rightarrow> string \<Rightarrow> nat \<Rightarrow> py_error + field_result option" where
  "validate_field lib self header v row_num =
     (if v = [] \<or> py_strip v = [] then Inr None
      else
        (case validations self header of
           None \<Rightarrow> Inr None
         | Some rule \<Rightarrow>
            (if is_empty_rule rule then Inr None
             else
               (let val = py_strip v in
                (case r_type rule of
                   None \<Rightarrow> Inl (KeyError ''type'')
                 | Some t \<Rightarrow>
                    (if t = ''list'' then list_validation rule header val row_num
                     else if t = ''date'' then date_validation rule header val row_num
                     else if t = ''time'' then time_validation rule header val row_num
                     else if t = ''number'' then number_validation lib rule header val row_num
                     else if t = ''pattern'' then pattern_validation lib rule header val row_num
                     else Inr None))))))"

section \<open>Validating a file\<close>

text \<open>The dict \<open>results\<close> and the three dicts inside it (\<open>file_name\<close> is its key \<open>file\<close>).\<close>

record header_validation =
  matching :: "string list"
  missing :: "string list"
  extra :: "string list"
  is_valid :: bool

record data_validation =
  errors :: "field_result list"
  warnings :: "field_result list"
  total_rows :: nat

record subject_id_validation =
  unknown_count :: nat
  name_count :: nat
  invalid_count :: nat
  examples :: "subject_result list"

record results =
  file_name :: string
  timestamp :: string
  header_validation :: header_validation
  data_validation :: data_validation
  subject_id_validation :: subject_id_validation

text \<open>
  What one run reads from its surroundings: \<open>now\<close> is \<open>datetime.now().isoformat()\<close>, and
  \<open>list_of\<close> is \<open>list(s)\<close> for a set \<open>s\<close> of strings, the order in which the interpreter
  iterates the set. That order depends on the hashes of the strings, which change from one
  process to the next; \<open>enumerates\<close> says what every such order has in common.
\<close>

record run_env =
  now :: string
  list_of :: "string set \<Rightarrow> string list"

definition enumerates :: "(string set \<Rightarrow> string list) \<Rightarrow> bool" where
  "enumerates f = (\<forall>S. finite S \<longrightarrow> set (f S) = S \<and> distinct (f S))"

text \<open>
  A row as \<open>csv.DictReader\<close> yields it: a dict from column name to text. A row shorter than
  the header binds the columns it lacks to \<open>None\<close>; such a column is modelled as absent
  from the row. The code treats the two alike: \<open>row.get(header, '')\<close> is \<open>None\<close> or \<open>''\<close>,
  and \<open>_validate_field\<close> returns \<open>None\<close> for both at its first test, as
  \<open>_validate_subject_id\<close> does for \<open>None\<close>.
\<close>

type_synonym row = "string \<rightharpoonup> string"

definition header_check ::
  "(string set \<Rightarrow> string list) \<Rightarrow> string list \<Rightarrow> string list \<Rightarrow> header_validation" where
  "header_check list_of_set hs csv_headers =
     (let template_set = set hs;
          csv_set = set csv_headers;
          m = list_of_set (template_set \<inter> csv_set);
          mi = list_of_set (template_set - csv_set);
          ex = list_of_set (csv_set - template_set)
      in \<lparr>matching = m, missing = mi, extra = ex, is_valid = (length mi = 0)\<rparr>)"

text \<open>The loop over the columns of one row.\<close>

fun field_validation ::
  "'n pylib \<Rightarrow> 'n validator \<Rightarrow> row \<Rightarrow> nat \<Rightarrow> string list \<Rightarrow> data_validation
     \<Rightarrow> py_error + data_validation" where
  "field_validation lib self r row_num [] dv = Inr dv"
| "field_validation lib self r row_num (header # hs) dv =
     (if validations self header \<noteq> None then
        (case validate_field lib self header (case r header of None \<Rightarrow> [] | Some v \<Rightarrow> v) row_num of
           Inl e \<Rightarrow> Inl e
         | Inr None \<Rightarrow> field_validation lib self r row_num hs dv
         | Inr (Some res) \<Rightarrow>
             field_validation lib self r row_num hs
               (if f_severity res = ''error''
                then dv\<lparr>errors := errors dv @ [res]\<rparr>
                else dv\<lparr>warnings := warnings dv @ [res]\<rparr>))
      else field_validation lib self r row_num hs dv)"

text \<open>The subject identifier of one row: the counts, then the examples.\<close>

definition count_subject :: "subject_result \<Rightarrow> subject_id_validation \<Rightarrow> subject_id_validation" where
  "count_subject res sv =
     (if s_type res = ''unknown'' then sv\<lparr>unknown_count := unknown_count sv + 1\<rparr>
      else if s_type res = ''name'' then sv\<lparr>name_count := name_count sv + 1\<rparr>
      else if s_type res = ''invalid'' then sv\<lparr>invalid_count := invalid_count sv + 1\<rparr>
      else sv)"

definition special_validation_subject_id ::
  "row \<Rightarrow> nat \<Rightarrow> subject_id_validation \<Rightarrow> subject_id_validation" where
  "special_validation_subject_id r row_num sv =
     (case r ''subject_id'' of
        None \<Rightarrow> sv
      | Some v \<Rightarrow>
          (case validate_subject_id v row_num of
             None \<Rightarrow> sv
           | Some res \<Rightarrow>
               let sv' = count_subject res sv
               in if length (examples sv') < 5 then sv'\<lparr>examples := examples sv' @ [res]\<rparr>
                  else sv'))"

text \<open>The loop over the rows; \<open>row_num\<close> is the number of the next row.\<close>

fun row_processing ::
  "'n pylib \<Rightarrow> 'n validator \<Rightarrow> string list \<Rightarrow> nat \<Rightarrow> row list \<Rightarrow> results
     \<Rightarrow> py_error + results" where
  "row_processing lib self csv_headers row_num [] res = Inr res"
| "row_processing lib self csv_headers row_num (r # rs) res =
     (let dv = data_validation res;
          dv1 = dv\<lparr>total_rows := total_rows dv + 1\<rparr>
      in case field_validation lib self r row_num csv_headers dv1 of
           Inl e \<Rightarrow> Inl e
         | Inr dv2 \<Rightarrow>
             row_processing lib self csv_headers (Suc row_num) rs
               (res\<lparr>data_validation := dv2,
                    subject_id_validation :=
                      special_validation_subject_id r row_num (subject_id_validation res)\<rparr>))"

definition initial_results :: "string \<Rightarrow> string \<Rightarrow> results" where
  "initial_results name t =
     \<lparr>file_name = name, timestamp = t,
      header_validation = \<lparr>matching = [], missing = [], extra = [], is_valid = False\<rparr>,
      data_validation = \<lparr>errors = [], warnings = [], total_rows = 0\<rparr>,
      subject_id_validation =
        \<lparr>unknown_count = 0, name_count = 0, invalid_count = 0, examples = []\<rparr>\<rparr>"

text \<open>
  \<open>validate_csv\<close>. Reading the file is outside the model: \<open>name\<close> is the file's name,
  \<open>fieldnames\<close> is \<open>reader.fieldnames\<close> (\<open>None\<close> for a file with no line at all, for which
  \<open>set(csv_headers)\<close> raises \<open>TypeError\<close>) and \<open>rows\<close> are the rows of the reader in order,
  the first of them being row 2. An exception is printed and raised again.
\<close>

definition validate_csv ::
  "run_env \<Rightarrow> 'n pylib \<Rightarrow> 'n validator \<Rightarrow> string \<Rightarrow> string list option \<Rightarrow> row list
     \<Rightarrow> py_error + results" where
  "validate_csv env lib self name fieldnames rows =
     (let res = initial_results name (now env) in
      case fieldnames of
        None \<Rightarrow> Inl TypeError
      | Some csv_headers \<Rightarrow>
          row_processing lib self csv_headers 2 rows
            (res\<lparr>header_validation := header_check (list_of env) (headers self) csv_headers\<rparr>))"

section \<open>Notions used in the statements\<close>

text \<open>
  \<open>eol_final r\<close>: every match of \<open>r\<close> ends by passing a \<open>$\<close>. \<open>no_eol r\<close>: there is no \<open>$\<close>
  in \<open>r\<close>. \<open>grow u c\<close> is the position \<open>c\<close> in a subject that goes on with \<open>u\<close>.
\<close>

fun eol_final :: "rx \<Rightarrow> bool" where
  "eol_final Eol = True"
| "eol_final (Seq a b) = eol_final b"
| "eol_final (Alt a b) = (eol_final a \<and> eol_final b)"
| "eol_final _ = False"



text \<open>
  \<open>width r\<close> is \<open>Some k\<close> when it is plain from the form of \<open>r\<close> that every match of \<open>r\<close>
  consumes exactly \<open>k\<close> characters.
\<close>

fun width :: "rx \<Rightarrow> nat option" where
  "width (Lit x) = Some 1"
| "width (Cls xs) = Some 1"
| "width Bol = Some 0"
| "width Eol = Some 0"
| "width (Seq a b) =
     (case width a of None \<Rightarrow> None
      | Some j \<Rightarrow> (case width b of None \<Rightarrow> None | Some k \<Rightarrow> Some (j + k)))"
| "width (Alt a b) =
     (case width a of None \<Rightarrow> None
      | Some j \<Rightarrow> (case width b of None \<Rightarrow> None | Some k \<Rightarrow> if j = k then Some j else None))"
| "width (Opt a) = None"
| "width (Star a) = None"
| "width (Rep lo hi a) =
     (if lo = hi then (case width a of None \<Rightarrow> None | Some j \<Rightarrow> Some (lo * j)) else None)"

text \<open>
  The specification's words for a date: \<open>MM/DD/YYYY\<close> with \<open>MM\<close> in 01 .. 12, \<open>DD\<close> in
  01 .. 31 and \<open>YYYY\<close> four digits. \<open>two_digit a b\<close> is the number that the digits \<open>a\<close> and
  \<open>b\<close> write.
\<close>

definition is_digit :: "char \<Rightarrow> bool" where
  "is_digit c = (c \<in> set digits)"

definition digit_val :: "char \<Rightarrow> int" where
  "digit_val c = int (length (takeWhile (\<lambda>d. d \<noteq> c) digits))"

definition two_digit :: "char \<Rightarrow> char \<Rightarrow> int" where
  "two_digit a b = 10 * digit_val a + digit_val b"

definition date_shape :: "string \<Rightarrow> bool" where
  "date_shape s =
     (case s of
        [m1, m2, a, d1, d2, b, y1, y2, y3, y4] \<Rightarrow>
          a = CHR ''/'' \<and> b = CHR ''/'' \<and>
          is_digit m1 \<and> is_digit m2 \<and> 1 \<le> two_digit m1 m2 \<and> two_digit m1 m2 \<le> 12 \<and>
          is_digit d1 \<and> is_digit d2 \<and> 1 \<le> two_digit d1 d2 \<and> two_digit d1 d2 \<le> 31 \<and>
          is_digit y1 \<and> is_digit y2 \<and> is_digit y3 \<and> is_digit y4
      | _ \<Rightarrow> False)"

text \<open>
  The subject results of a run, in order: one for each row that has a \<open>subject_id\<close> for
  which \<open>_validate_subject_id\<close> returns a dict. \<open>row_num\<close> is the number of the first row.
\<close>

fun subject_results :: "nat \<Rightarrow> row list \<Rightarrow> subject_result list" where
  "subject_results row_num [] = []"
| "subject_results row_num (r # rs) =
     (case r ''subject_id'' of
        None \<Rightarrow> subject_results (Suc row_num) rs
      | Some v \<Rightarrow>
          (case validate_subject_id v row_num of
             None \<Rightarrow> subject_results (Suc row_num) rs
           | Some res \<Rightarrow> res # subject_results (Suc row_num) rs))"

text \<open>
  \<open>counted sv fs\<close>: the counts of \<open>sv\<close> are those of the subject results \<open>fs\<close>, by type, and
  its examples are the first five of them.
\<close>

definition counted :: "subject_id_validation \<Rightarrow> subject_result list \<Rightarrow> bool" where
  "counted sv fs =
     (examples sv = take 5 fs \<and>
      unknown_count sv = length (filter (\<lambda>x. s_type x = ''unknown'') fs) \<and>
      name_count sv = length (filter (\<lambda>x. s_type x = ''name'') fs) \<and>
      invalid_count sv = length (filter (\<lambda>x. s_type x = ''invalid'') fs))"

text \<open>
  A rule that \<open>_validate_field\<close> can evaluate without an exception: the empty rule, or a
  rule with a \<open>type\<close>, which has its \<open>values\<close> when the type is \<open>list\<close> and a pattern that
  compiles when the type is \<open>pattern\<close>.
\<close>

definition rule_ok :: "'n pylib \<Rightarrow> 'n rule \<Rightarrow> bool" where
  "rule_ok lib rule =
     (is_empty_rule rule \<or>
      (case r_type rule of
         None \<Rightarrow> False
       | Some t \<Rightarrow>
           (t = ''list'' \<longrightarrow> r_values rule \<noteq> None) \<and>
           (t = ''pattern'' \<longrightarrow>
              (case r_pattern rule of
                 None \<Rightarrow> False
               | Some p \<Rightarrow> \<forall>s. py_re_match lib p s \<noteq> None))))"

section \<open>An instance for the examples\<close>

text \<open>
  A small library: its numbers are the integers, \<open>float\<close> reads the unsigned decimal
  numerals, and \<open>re.match\<close> knows the two patterns \<^verbatim>\<open>[A-Z]{2}\<close> and \<^verbatim>\<open>^[A-Z]{2}$\<close>. Neither
  pattern matches a character beyond \<open>Z\<close>, so in the subject every code point outside the
  model may be read as U+0000.
\<close>

definition latin1_or_nul :: "nat \<Rightarrow> char" where
  "latin1_or_nul n = (if n < 256 then char_of n else CHR 0x00)"

definition demo_float :: "string \<Rightarrow> int option" where
  "demo_float s =
     (if s \<noteq> [] \<and> list_all (\<lambda>c. c \<in> set digits) s
      then Some (foldl (\<lambda>a c. 10 * a + digit_val c) 0 s) else None)"

fun show_nat :: "nat \<Rightarrow> string" where
  "show_nat n = (if n < 10 then [digits ! n] else show_nat (n div 10) @ [digits ! (n mod 10)])"

declare show_nat.simps [simp del]

definition demo_str :: "int \<Rightarrow> string" where
  "demo_str n = (if n < 0 then ''-'' @ show_nat (nat (- n)) else show_nat (nat n))"

definition two_capitals :: rx where
  "two_capitals = Rep 2 2 (Cls ascii_uppercase)"

definition demo_re_match :: "string \<Rightarrow> code_points \<Rightarrow> bool option" where
  "demo_re_match p u =
     (if p = ''[A-Z]{2}'' then Some (re_match two_capitals (map latin1_or_nul u))
      else if p = ''^[A-Z]{2}$'' then
        Some (re_match (Seq Bol (Seq two_capitals Eol)) (map latin1_or_nul u))
      else None)"

definition demo_lib :: "int pylib" where
  "demo_lib = \<lparr>py_float = demo_float, py_lt = (<), py_str = demo_str,
               py_re_match = demo_re_match\<rparr>"

definition rule_of_type :: "string \<Rightarrow> int rule" where
  "rule_of_type t =
     \<lparr>r_type = Some t, r_values = None, r_format = None, r_min = None, r_max = None,
      r_pattern = None, r_description = None, r_other = False\<rparr>"

definition demo_validator :: "int validator" where
  "demo_validator =
     \<lparr>headers = [''subject_id'', ''event_date''],
      validations =
        [''event_date'' \<mapsto> rule_of_type ''date'',
         ''answer'' \<mapsto> (rule_of_type ''list'')\<lparr>r_values := Some [''Yes'', ''No'']\<rparr>,
         ''answers'' \<mapsto> (rule_of_type ''list'')\<lparr>r_values := Some [''Yes'', ''No'', ''Yes'']\<rparr>,
         ''age'' \<mapsto> (rule_of_type ''number'')\<lparr>r_min := Some 10, r_max := Some 120\<rparr>,
         ''unit'' \<mapsto> (rule_of_type ''pattern'')\<lparr>r_pattern := Some ''[A-Z]{2}''\<rparr>,
         ''code'' \<mapsto> (rule_of_type ''pattern'')\<lparr>r_pattern := Some ''^[A-Z]{2}$''\<rparr>,
         ''note'' \<mapsto> rule_of_type ''text'']\<rparr>"

text \<open>Two runs that differ in the clock only; both list a set in alphabetical order.\<close>

definition demo_list_of :: "string set \<Rightarrow> string list" where
  "demo_list_of = sorted_list_of_set"

definition demo_env :: run_env where
  "demo_env = \<lparr>now = ''2024-05-01T10:00:00.000000'', list_of = demo_list_of\<rparr>"

definition demo_env_later :: run_env where
  "demo_env_later = \<lparr>now = ''2024-05-01T10:00:07.000000'', list_of = demo_list_of\<rparr>"

text \<open>
  The scenario of the specification: the template expects \<open>subject_id\<close> and \<open>event_date\<close>
  and has a date rule for \<open>event_date\<close>; the file has a third column \<open>notes\<close>.
\<close>

definition scenario_validator :: "int validator" where
  "scenario_validator =
     \<lparr>headers = [''subject_id'', ''event_date''],
      validations = [''event_date'' \<mapsto> rule_of_type ''date'']\<rparr>"

definition scenario_headers :: "string list" where
  "scenario_headers = [''subject_id'', ''event_date'', ''notes'']"

definition unknown_row :: row where
  "unknown_row = [''subject_id'' \<mapsto> ''unknown'', ''event_date'' \<mapsto> ''01/02/2024'']"

text \<open>A date between a next-line character and a no-break space, initials followed by
  a no-break space, and a name with a no-break space in it.\<close>

definition nbsp_name :: string where
  "nbsp_name = ''Jo'' @ [CHR 0xA0] @ ''Doe X''"

definition padded_date :: string where
  "padded_date = [CHR 0x85] @ ''02/30/2024'' @ [CHR 0xA0]"

definition padded_initials :: string where
  "padded_initials = ''JD'' @ [CHR 0xA0]"

text \<open>A name whose two words are separated by a tab.\<close>

definition tabbed_name :: string where
  "tabbed_name = ''John'' @ [CHR 0x09] @ ''Doe''"

definition demo_row :: row where
  "demo_row = [''subject_id'' \<mapsto> ''John Doe'', ''event_date'' \<mapsto> ''13/45/2024'']"

definition seven_rows :: "row list" where
  "seven_rows = [unknown_row, demo_row, unknown_row, unknown_row, demo_row, unknown_row, unknown_row]"

section \<open>Properties of the matcher\<close>

text \<open>The string functions on characters beyond ASCII, and the time pattern, evaluated.\<close>

lemma latin1_examples:
  "list_all isspace whitespace"
  "py_strip ([CHR 0x85, CHR 0xA0] @ ''JD'' @ [CHR 0x1F, CHR '' '']) = ''JD''"
  "py_split nbsp_name = [''Jo'', ''Doe'', ''X'']"
  "py_lower [CHR 0xC9, CHR 0xD7, CHR 0xDE] = [CHR 0xE9, CHR 0xD7, CHR 0xFE]"
  "py_upper [CHR 0xE9, CHR 0xF7, CHR 0xFE] = [0xC9, 0xF7, 0xDE]"
  "py_upper [CHR 0xDF, CHR 0xB5, CHR 0xFF] = [83, 83, 0x39C, 0x178]"
  "map_option s_type (validate_subject_id nbsp_name 2) = Some ''invalid''"
  by code_simp+

lemma time_examples:
  "re_match time_rx ''08:21''" "\<not> re_match time_rx ''8:21''" "re_match time_rx ''25:00''"
  by code_simp+

lemma strip_last_not_space:
  assumes "py_strip s = t @ [c]" shows "\<not> isspace c"
proof -
  from assms have "dropWhile isspace (rev (dropWhile isspace s)) = c # rev t"
    by (metis py_strip_def rev.simps(2) rev_rev_ident rev_append rev_singleton_conv append_Nil)
  then show ?thesis by (metis hd_dropWhile list.sel(1) list.distinct(1))
qed

lemma rounds_suffix:
  assumes "\<And>c c'. c' \<in> set (f c) \<Longrightarrow> \<exists>p. snd c = p @ snd c'"
  shows "c' \<in> set (rounds f k c) \<Longrightarrow> \<exists>p. snd c = p @ snd c'"
proof (induction k arbitrary: c)
  case 0 then show ?case by simp
next
  case (Suc k)
  then obtain m where m: "m \<in> set (f c)" "c' \<in> set (rounds f k m)" by auto
  from assms[OF m(1)] Suc.IH[OF m(2)] show ?case by (metis append.assoc)
qed

lemma star_suffix:
  assumes "\<And>c c'. c' \<in> set (f c) \<Longrightarrow> \<exists>p. snd c = p @ snd c'"
  shows "c' \<in> set (star f k c) \<Longrightarrow> \<exists>p. snd c = p @ snd c'"
proof (induction k arbitrary: c)
  case 0 then show ?case by simp
next
  case (Suc k)
  then consider "c' = c" | m where "m \<in> set (f c)" "c' \<in> set (star f k m)" by auto
  then show ?case
  proof cases
    case 1 then show ?thesis by simp
  next
    case 2
    from assms[OF 2(1)] Suc.IH[OF 2(2)] show ?thesis by (metis append.assoc)
  qed
qed

lemma rems_suffix: "c' \<in> set (rems r c) \<Longrightarrow> \<exists>p. snd c = p @ snd c'"
proof (induction r arbitrary: c c')
  case (Lit x) then show ?case
    by (cases "snd c") (auto split: if_splits intro: exI[of _ "[x]"])
next
  case (Cls xs) then show ?case
    by (cases "snd c") (auto split: if_splits intro: exI[of _ "[y]" for y])
next
  case Bol then show ?case by (auto split: if_splits)
next
  case Eol then show ?case by (auto split: if_splits)
next
  case (Seq a b)
  then obtain m where "m \<in> set (rems a c)" "c' \<in> set (rems b m)" by auto
  with Seq.IH show ?case by (metis append.assoc)
next
  case (Alt a b)
  from Alt.prems have "c' \<in> set (rems a c) \<or> c' \<in> set (rems b c)" by simp
  with Alt.IH show ?case by blast
next
  case (Opt a)
  from Opt.prems have "c' \<in> set (rems a c) \<or> c' = c" by auto
  with Opt.IH show ?case by blast
next
  case (Star a)
  from Star.prems have "c' \<in> set (star (rems a) (length (snd c)) c)" by simp
  then show ?case by (rule star_suffix[rotated]) (rule Star.IH)
next
  case (Rep lo hi a)
  from Rep.prems obtain k where "c' \<in> set (rounds (rems a) k c)" by auto
  then show ?case by (rule rounds_suffix[rotated]) (rule Rep.IH)
qed

lemma eol_final_rems:
  "eol_final r \<Longrightarrow> c' \<in> set (rems r c) \<Longrightarrow> snd c' = [] \<or> snd c' = [CHR 0x0A]"
proof (induction r arbitrary: c c')
  case (Seq a b)
  from Seq.prems have e: "eol_final b" by simp
  from Seq.prems obtain m where "c' \<in> set (rems b m)" by auto
  with Seq.IH e show ?case by blast
next
  case (Alt a b)
  from Alt.prems have e: "eol_final a" "eol_final b" by simp_all
  from Alt.prems have "c' \<in> set (rems a c) \<or> c' \<in> set (rems b c)" by simp
  with Alt.IH e show ?case by blast
qed (simp_all split: if_splits)

lemma match_is_fullmatch:
  assumes "eol_final r" and "s = [] \<or> \<not> isspace (last s)"
  shows "re_match r s = re_fullmatch r s"
proof
  assume "re_match r s"
  then obtain c' where c': "c' \<in> set (rems r (True, s))"
    by (cases "rems r (True, s)") (auto simp: re_match_def)
  from rems_suffix[OF c'] obtain p where p: "s = p @ snd c'" by auto
  have "snd c' \<noteq> [CHR 0x0A]"
  proof
    assume e: "snd c' = [CHR 0x0A]"
    with p have "s \<noteq> []" "last s = CHR 0x0A" by auto
    with assms(2) show False by (simp add: isspace_def whitespace_def)
  qed
  with eol_final_rems[OF assms(1) c'] have "snd c' = []" by blast
  with c' show "re_fullmatch r s" by (auto simp: re_fullmatch_def list_ex_iff)
next
  assume "re_fullmatch r s"
  then show "re_match r s" by (auto simp: re_fullmatch_def re_match_def list_ex_iff)
qed

lemma strip_no_trailing_space: "py_strip v = [] \<or> \<not> isspace (last (py_strip v))"
proof (cases "py_strip v" rule: rev_cases)
  case Nil then show ?thesis by simp
next
  case (snoc t c)
  with strip_last_not_space[OF snoc] show ?thesis by simp
qed





lemma star_fuel: "length (snd c) \<le> k \<Longrightarrow> star f (Suc k) c = star f k c"
proof (induction k arbitrary: c)
  case 0 then show ?case by simp
next
  case (Suc k)
  let ?F = "filter (\<lambda>c'. length (snd c') < length (snd c)) (f c)"
  have eq: "map (star f (Suc k)) ?F = map (star f k) ?F"
  proof (rule map_cong[OF refl])
    fix m assume "m \<in> set ?F"
    with Suc.prems have "length (snd m) \<le> k" by simp
    then show "star f (Suc k) m = star f k m" by (rule Suc.IH)
  qed
  have "star f (Suc (Suc k)) c = c # concat (map (star f (Suc k)) ?F)"
    by (rule star.simps(2))
  also have "\<dots> = c # concat (map (star f k) ?F)" by (simp only: eq)
  also have "\<dots> = star f (Suc k) c" by (rule star.simps(2)[symmetric])
  finally show ?case .
qed

subsection \<open>The date pattern and the words of the specification\<close>

lemma rounds_width:
  assumes "\<And>c c'. c' \<in> set (f c) \<Longrightarrow> length (snd c) = length (snd c') + j"
  shows "c' \<in> set (rounds f k c) \<Longrightarrow> length (snd c) = length (snd c') + k * j"
proof (induction k arbitrary: c)
  case 0 then show ?case by simp
next
  case (Suc k)
  then obtain m where m: "m \<in> set (f c)" "c' \<in> set (rounds f k m)" by auto
  from assms[OF m(1)] Suc.IH[OF m(2)] show ?case by simp
qed

lemma width_rems:
  "width r = Some k \<Longrightarrow> c' \<in> set (rems r c) \<Longrightarrow> length (snd c) = length (snd c') + k"
proof (induction r arbitrary: k c c')
  case (Lit x) then show ?case by (cases "snd c") (auto split: if_splits)
next
  case (Cls xs) then show ?case by (cases "snd c") (auto split: if_splits)
next
  case Bol then show ?case by (auto split: if_splits)
next
  case Eol then show ?case by (auto split: if_splits)
next
  case (Seq a b)
  from Seq.prems(1) obtain i j where w: "width a = Some i" "width b = Some j" "k = i + j"
    by (auto split: option.splits)
  from Seq.prems(2) obtain m where m: "m \<in> set (rems a c)" "c' \<in> set (rems b m)" by auto
  from Seq.IH(1)[OF w(1) m(1)] Seq.IH(2)[OF w(2) m(2)] w(3) show ?case by simp
next
  case (Alt a b)
  from Alt.prems(1) have w: "width a = Some k" "width b = Some k"
    by (auto split: option.splits if_splits)
  from Alt.prems(2) have "c' \<in> set (rems a c) \<or> c' \<in> set (rems b c)" by simp
  with Alt.IH(1)[OF w(1)] Alt.IH(2)[OF w(2)] show ?case by blast
next
  case (Opt a) then show ?case by simp
next
  case (Star a) then show ?case by simp
next
  case (Rep lo hi a)
  from Rep.prems(1) obtain j where w: "lo = hi" "width a = Some j" "k = lo * j"
    by (auto split: option.splits if_splits)
  from Rep.prems(2) w(1) have "c' \<in> set (rounds (rems a) lo c)" by simp
  then have "length (snd c) = length (snd c') + lo * j"
    by (rule rounds_width[rotated]) (rule Rep.IH[OF w(2)])
  with w(3) show ?case by simp
qed

lemma date_width: "width date_rx = Some 10"
  by (simp add: date_rx_def digit_def)

lemma fullmatch_date_length: "re_fullmatch date_rx s \<Longrightarrow> length s = 10"
proof -
  assume "re_fullmatch date_rx s"
  then obtain c' where c: "c' \<in> set (rems date_rx (True, s))" "snd c' = []"
    by (auto simp: re_fullmatch_def list_ex_iff)
  from width_rems[OF date_width c(1)] c(2) show ?thesis by simp
qed

lemma date_shape_length: "date_shape s \<Longrightarrow> length s = 10"
  by (simp add: date_shape_def split: list.splits)

lemma length_10:
  assumes "length s = 10"
  obtains c1 c2 c3 c4 c5 c6 c7 c8 c9 c10 where "s = [c1, c2, c3, c4, c5, c6, c7, c8, c9, c10]"
proof -
  from assms have "length s = Suc (Suc (Suc (Suc (Suc (Suc (Suc (Suc (Suc (Suc 0)))))))))"
    by simp
  then show ?thesis using that by (auto simp: length_Suc_conv)
qed

lemma fullmatch_date_10:
  "re_fullmatch date_rx [c1, c2, c3, c4, c5, c6, c7, c8, c9, c10] =
     ((c1 = CHR ''0'' \<and> c2 \<in> set ''123456789'' \<or> c1 = CHR ''1'' \<and> c2 \<in> set ''012'')
      \<and> c3 = CHR ''/''
      \<and> (c4 = CHR ''0'' \<and> c5 \<in> set ''123456789'' \<or> c4 \<in> set ''12'' \<and> c5 \<in> set ''0123456789''
           \<or> c4 = CHR ''3'' \<and> c5 \<in> set ''01'')
      \<and> c6 = CHR ''/''
      \<and> c7 \<in> set digits \<and> c8 \<in> set digits \<and> c9 \<in> set digits \<and> c10 \<in> set digits)"
proof -
  have year: "rems (Seq (Rep 4 4 digit) Eol) (False, [c7, c8, c9, c10]) =
      (if c7 \<in> set digits \<and> c8 \<in> set digits \<and> c9 \<in> set digits \<and> c10 \<in> set digits
       then [(False, [])] else [])"
    by (simp add: digit_def eval_nat_numeral)
  have day: "rems (Seq (Alt (Seq (Lit (CHR ''0'')) (Cls ''123456789''))
         (Alt (Seq (Cls ''12'') (Cls ''0123456789''))
              (Seq (Lit (CHR ''3'')) (Cls ''01'')))) (Seq (Lit (CHR ''/'')) r)) (False, c4 # c5 # c6 # t) =
      (if (c4 = CHR ''0'' \<and> c5 \<in> set ''123456789'' \<or> c4 \<in> set ''12'' \<and> c5 \<in> set ''0123456789''
           \<or> c4 = CHR ''3'' \<and> c5 \<in> set ''01'') \<and> c6 = CHR ''/''
       then rems r (False, t) else [])" for r t
    by (cases "c4 = CHR ''0''"; cases "c4 = CHR ''3''"; cases "c4 \<in> set ''12''"; simp; auto)
  have month: "rems (Seq (Alt (Seq (Lit (CHR ''0'')) (Cls ''123456789''))
              (Seq (Lit (CHR ''1'')) (Cls ''012''))) (Seq (Lit (CHR ''/'')) r)) (b, c1 # c2 # c3 # t) =
      (if (c1 = CHR ''0'' \<and> c2 \<in> set ''123456789'' \<or> c1 = CHR ''1'' \<and> c2 \<in> set ''012'')
          \<and> c3 = CHR ''/''
       then rems r (False, t) else [])" for r t b
    by (cases "c1 = CHR ''0''"; cases "c1 = CHR ''1''"; simp; auto)
  show ?thesis
    unfolding re_fullmatch_def date_rx_def rems.simps(5)[of Bol] rems.simps(3)
    by (simp only: fst_conv if_True list.map concat.simps append_Nil2 month day year)
       (simp add: list_ex_iff)
qed

lemma digit_vals:
  "digit_val (CHR ''0'') = 0" "digit_val (CHR ''1'') = 1" "digit_val (CHR ''2'') = 2"
  "digit_val (CHR ''3'') = 3" "digit_val (CHR ''4'') = 4" "digit_val (CHR ''5'') = 5"
  "digit_val (CHR ''6'') = 6" "digit_val (CHR ''7'') = 7" "digit_val (CHR ''8'') = 8"
  "digit_val (CHR ''9'') = 9"
  by (simp_all add: digit_val_def digits_def)

lemma is_digit_cases:
  "is_digit c = (c = CHR ''0'' \<or> c = CHR ''1'' \<or> c = CHR ''2'' \<or> c = CHR ''3'' \<or> c = CHR ''4''
      \<or> c = CHR ''5'' \<or> c = CHR ''6'' \<or> c = CHR ''7'' \<or> c = CHR ''8'' \<or> c = CHR ''9'')"
  by (simp add: is_digit_def digits_def)

lemma digit_val_range: "is_digit c \<Longrightarrow> 0 \<le> digit_val c \<and> digit_val c \<le> 9"
  unfolding is_digit_cases by (elim disjE) (simp_all add: digit_vals)

lemma digit_val_low:
  assumes "is_digit c"
  shows "(1 \<le> digit_val c) = (c \<in> set ''123456789'')"
    and "(digit_val c \<le> 2) = (c \<in> set ''012'')"
    and "(digit_val c \<le> 1) = (c \<in> set ''01'')"
    and "c \<in> set ''0123456789''"
  using assms unfolding is_digit_cases by (elim disjE; simp add: digit_vals)+

lemma digit_val_tens:
  assumes "is_digit c"
  shows "(digit_val c = 0) = (c = CHR ''0'')" and "(digit_val c = 1) = (c = CHR ''1'')"
    and "(digit_val c = 3) = (c = CHR ''3'')"
    and "(digit_val c = 2) = (c = CHR ''2'')"
  using assms unfolding is_digit_cases by (elim disjE; simp add: digit_vals)+

lemma in_digits:
  "c \<in> set ''123456789'' \<Longrightarrow> is_digit c" "c \<in> set ''012'' \<Longrightarrow> is_digit c"
  "c \<in> set ''01'' \<Longrightarrow> is_digit c" "c \<in> set ''12'' \<Longrightarrow> is_digit c"
  "c \<in> set ''0123456789'' \<Longrightarrow> is_digit c" "is_digit (CHR ''0'')" "is_digit (CHR ''1'')"
  "is_digit (CHR ''3'')"
  by (auto simp: is_digit_def digits_def)

lemma month_ok:
  "(m1 = CHR ''0'' \<and> m2 \<in> set ''123456789'' \<or> m1 = CHR ''1'' \<and> m2 \<in> set ''012'') =
   (is_digit m1 \<and> is_digit m2 \<and> 1 \<le> two_digit m1 m2 \<and> two_digit m1 m2 \<le> 12)"
proof (cases "is_digit m1 \<and> is_digit m2")
  case False
  then show ?thesis using in_digits by blast
next
  case True
  then have d1: "is_digit m1" and d2: "is_digit m2" by simp_all
  note r1 = digit_val_range[OF d1] and r2 = digit_val_range[OF d2]
  have "(1 \<le> two_digit m1 m2 \<and> two_digit m1 m2 \<le> 12) =
        (digit_val m1 = 0 \<and> 1 \<le> digit_val m2 \<or> digit_val m1 = 1 \<and> digit_val m2 \<le> 2)"
    using r1 r2 unfolding two_digit_def by presburger
  then show ?thesis
    by (simp add: d1 d2 digit_val_low[OF d2] digit_val_tens[OF d1])
qed

lemma day_ok:
  "(d1 = CHR ''0'' \<and> d2 \<in> set ''123456789'' \<or> d1 \<in> set ''12'' \<and> d2 \<in> set ''0123456789''
      \<or> d1 = CHR ''3'' \<and> d2 \<in> set ''01'') =
   (is_digit d1 \<and> is_digit d2 \<and> 1 \<le> two_digit d1 d2 \<and> two_digit d1 d2 \<le> 31)"
proof (cases "is_digit d1 \<and> is_digit d2")
  case False
  then show ?thesis using in_digits by blast
next
  case True
  then have a: "is_digit d1" and b: "is_digit d2" by simp_all
  note r1 = digit_val_range[OF a] and r2 = digit_val_range[OF b]
  have "(1 \<le> two_digit d1 d2 \<and> two_digit d1 d2 \<le> 31) =
        (digit_val d1 = 0 \<and> 1 \<le> digit_val d2 \<or> (digit_val d1 = 1 \<or> digit_val d1 = 2)
         \<or> digit_val d1 = 3 \<and> digit_val d2 \<le> 1)"
    using r1 r2 unfolding two_digit_def by presburger
  then show ?thesis
    using digit_val_low(4)[OF b]
    by (simp add: a b digit_val_low(1,2,3)[OF b] digit_val_tens[OF a])
qed

lemma fullmatch_date_shape: "re_fullmatch date_rx s = date_shape s"
proof (cases "length s = 10")
  case False
  with fullmatch_date_length[of s] date_shape_length[of s] show ?thesis by blast
next
  case True
  then obtain c1 c2 c3 c4 c5 c6 c7 c8 c9 c10
    where s: "s = [c1, c2, c3, c4, c5, c6, c7, c8, c9, c10]" by (rule length_10)
  show ?thesis
    unfolding s fullmatch_date_10 month_ok day_ok
    by (auto simp: date_shape_def is_digit_def)
qed

section \<open>Properties of the field evaluator and of the subject identifier\<close>

lemma not_empty_rule: "r_type rule = Some t \<Longrightarrow> \<not> is_empty_rule rule"
  by (simp add: is_empty_rule_def)

lemma validate_field_typed:
  assumes "validations self header = Some rule" and "r_type rule = Some t"
    and "py_strip v \<noteq> []"
  shows "validate_field lib self header v row_num =
    (if t = ''list'' then list_validation rule header (py_strip v) row_num
     else if t = ''date'' then date_validation rule header (py_strip v) row_num
     else if t = ''time'' then time_validation rule header (py_strip v) row_num
     else if t = ''number'' then number_validation lib rule header (py_strip v) row_num
     else if t = ''pattern'' then pattern_validation lib rule header (py_strip v) row_num
     else Inr None)"
proof -
  from assms(3) have "v \<noteq> []" by (auto simp: py_strip_def)
  with assms not_empty_rule[OF assms(2)] show ?thesis
    by (simp add: validate_field_def Let_def)
qed

lemma unread_keys_raise:
  assumes "validations self header = Some rule" and "r_type rule = None" and "r_other rule"
    and "py_strip v \<noteq> []"
  shows "validate_field lib self header v row_num = Inl (KeyError ''type'')"
proof -
  from assms(4) have "v \<noteq> []" by (auto simp: py_strip_def)
  with assms show ?thesis by (simp add: validate_field_def is_empty_rule_def Let_def)
qed

lemma demo_lookup:
  "validations demo_validator ''event_date'' = Some (rule_of_type ''date'')"
  "validations demo_validator ''answer'' = Some ((rule_of_type ''list'')\<lparr>r_values := Some [''Yes'', ''No'']\<rparr>)"
  "validations demo_validator ''answers'' = Some ((rule_of_type ''list'')\<lparr>r_values := Some [''Yes'', ''No'', ''Yes'']\<rparr>)"
  "validations demo_validator ''age'' = Some ((rule_of_type ''number'')\<lparr>r_min := Some 10, r_max := Some 120\<rparr>)"
  "validations demo_validator ''unit'' = Some ((rule_of_type ''pattern'')\<lparr>r_pattern := Some ''[A-Z]{2}''\<rparr>)"
  "validations demo_validator ''code'' = Some ((rule_of_type ''pattern'')\<lparr>r_pattern := Some ''^[A-Z]{2}$''\<rparr>)"
  "validations demo_validator ''note'' = Some (rule_of_type ''text'')"
  by (simp_all add: demo_validator_def)

text \<open>
  C10. A rule whose \<open>type\<close> is none of \<open>list\<close>, \<open>date\<close>, \<open>time\<close>, \<open>number\<close> and \<open>pattern\<close>
  makes \<open>_validate_field\<close> return \<open>None\<close> for every text: no finding, and no exception.
\<close>

theorem unknown_type_ignored:
  assumes "validations self header = Some rule" and "r_type rule = Some t"
    and "t \<notin> set [''list'', ''date'', ''time'', ''number'', ''pattern'']"
  shows "validate_field lib self header v row_num = Inr None"
proof (cases "py_strip v = []")
  case True
  then show ?thesis by (simp add: validate_field_def)
next
  case False
  with assms show ?thesis by (simp add: validate_field_typed)
qed

theorem unknown_type_ignored_witness:
  "validate_field demo_lib demo_validator ''note'' ''anything at all'' 2 = Inr None"
  by (rule unknown_type_ignored[OF demo_lookup(7), of "''text''"]) (simp_all add: rule_of_type_def)

lemma yes_no_lists:
  "(length vs = 2 \<and> ''Yes'' \<in> set vs \<and> ''No'' \<in> set vs) =
   (vs = [''Yes'', ''No''] \<or> vs = [''No'', ''Yes''])"
proof
  assume a: "length vs = 2 \<and> ''Yes'' \<in> set vs \<and> ''No'' \<in> set vs"
  then obtain x y where "vs = [x, y]"
    by (cases vs; cases "tl vs") auto
  with a show "vs = [''Yes'', ''No''] \<or> vs = [''No'', ''Yes'']" by auto
qed auto

lemma yes_no_set:
  "distinct vs \<Longrightarrow> (set vs = {''Yes'', ''No''}) = (vs = [''Yes'', ''No''] \<or> vs = [''No'', ''Yes''])"
proof
  assume d: "distinct vs" and s: "set vs = {''Yes'', ''No''}"
  from d have "length vs = card (set vs)" by (simp add: distinct_card)
  with s have "length vs = 2" by simp
  with s yes_no_lists[of vs] show "vs = [''Yes'', ''No''] \<or> vs = [''No'', ''Yes'']" by simp
qed auto

lemma lower_examples:
  "py_lower ''Yes'' = ''yes''" "py_lower ''No'' = ''no''" "py_lower ''yes'' = ''yes''"
  "py_lower ''YES'' = ''yes''" "py_lower ''maybe'' = ''maybe''"
  by code_simp+

lemma lower_yes_no:
  "set (map py_lower [''Yes'', ''No'']) = {''yes'', ''no''}"
  "set (map py_lower [''No'', ''Yes'']) = {''yes'', ''no''}"
  by (auto simp: lower_examples)

text \<open>
  C5 as amended. For a rule of type \<open>list\<close> and a text that is not blank, there is no
  finding exactly when the trimmed text is one of the allowed values, compared as they
  stand; except that when the list of allowed values has exactly the two entries \<open>Yes\<close> and
  \<open>No\<close>, in either order, there is no finding exactly when the trimmed text in lower case
  is \<open>yes\<close> or \<open>no\<close>. So \<open>yes\<close>, \<open>YES\<close> and \<open>No \<close> pass there. A list without repetition
  lists the set of \<open>Yes\<close> and \<open>No\<close> exactly when it is one of these two lists.
\<close>

theorem list_rule_membership:
  assumes "validations self header = Some rule" and "r_type rule = Some ''list''"
    and "r_values rule = Some vs" and "py_strip v \<noteq> []"
  shows "validate_field lib self header v row_num =
           (if (if vs = [''Yes'', ''No''] \<or> vs = [''No'', ''Yes'']
                then py_lower (py_strip v) \<in> {''yes'', ''no''}
                else py_strip v \<in> set vs)
            then Inr None
            else Inr (Some \<lparr>f_row = row_num, f_column = header, f_value = py_strip v,
                   f_error = must_be_one_of vs,
                   f_severity = ''error''\<rparr>))
         \<and> (py_strip v \<in> set vs \<longrightarrow> validate_field lib self header v row_num = Inr None)
         \<and> ((vs = [''Yes'', ''No''] \<or> vs = [''No'', ''Yes'']) \<and> v \<in> {''yes'', ''YES'', ''No ''}
              \<longrightarrow> validate_field lib self header v row_num = Inr None)
         \<and> (distinct vs \<longrightarrow>
              (set vs = {''Yes'', ''No''}) = (vs = [''Yes'', ''No''] \<or> vs = [''No'', ''Yes'']))"
proof -
  let ?val = "py_strip v"
  let ?yn = "vs = [''Yes'', ''No''] \<or> vs = [''No'', ''Yes'']"
  have vf: "validate_field lib self header v row_num = list_validation rule header ?val row_num"
    using assms by (simp add: validate_field_typed)
  note ly = lower_examples(1,2)
  have in_yn: "?yn \<Longrightarrow> ?val \<in> set vs \<Longrightarrow> py_lower ?val \<in> {''yes'', ''no''}"
    using ly by auto
  have main: "list_validation rule header ?val row_num =
           (if (if ?yn then py_lower ?val \<in> {''yes'', ''no''} else ?val \<in> set vs)
            then Inr None
            else Inr (Some \<lparr>f_row = row_num, f_column = header, f_value = ?val,
                   f_error = must_be_one_of vs,
                   f_severity = ''error''\<rparr>))"
  proof (cases ?yn)
    case True
    then have g: "length vs = 2 \<and> ''Yes'' \<in> set vs \<and> ''No'' \<in> set vs"
      using yes_no_lists[of vs] by blast
    from True have l: "set (map py_lower vs) = {''yes'', ''no''}"
      by (elim disjE) (simp_all only: lower_yes_no)
    show ?thesis
    proof (cases "?val \<in> set vs")
      case v: True
      with True in_yn show ?thesis by (simp add: list_validation_def assms(3))
    next
      case v: False
      with True g l show ?thesis by (simp add: list_validation_def assms(3))
    qed
  next
    case False
    then have "\<not> (length vs = 2 \<and> ''Yes'' \<in> set vs \<and> ''No'' \<in> set vs)"
      using yes_no_lists[of vs] by blast
    with False show ?thesis by (auto simp: list_validation_def assms(3))
  qed
  have exact: "?val \<in> set vs \<longrightarrow> validate_field lib self header v row_num = Inr None"
    by (simp add: vf list_validation_def assms(3))
  have st: "py_strip ''yes'' = ''yes''" "py_strip ''YES'' = ''YES''" "py_strip ''No '' = ''No''"
    by (simp_all add: py_strip_def isspace_def whitespace_def)
  note lo = lower_examples(3,4,2)
  have c1: "validate_field lib self header v row_num =
           (if (if ?yn then py_lower ?val \<in> {''yes'', ''no''} else ?val \<in> set vs)
            then Inr None
            else Inr (Some \<lparr>f_row = row_num, f_column = header, f_value = ?val,
                   f_error = must_be_one_of vs,
                   f_severity = ''error''\<rparr>))"
    by (simp only: vf main)
  have ex: "?yn \<and> v \<in> {''yes'', ''YES'', ''No ''}
              \<longrightarrow> validate_field lib self header v row_num = Inr None"
  proof
    assume a: "?yn \<and> v \<in> {''yes'', ''YES'', ''No ''}"
    then have "v = ''yes'' \<or> v = ''YES'' \<or> v = ''No ''" by blast
    then have "py_lower ?val \<in> {''yes'', ''no''}"
      using st lo by (elim disjE) simp_all
    with a c1 show "validate_field lib self header v row_num = Inr None"
      by presburger
  qed
  have c4: "distinct vs \<longrightarrow>
              (set vs = {''Yes'', ''No''}) = (vs = [''Yes'', ''No''] \<or> vs = [''No'', ''Yes''])"
    using yes_no_set by blast
  from c1 exact ex c4 show ?thesis by (intro conjI)
qed

theorem list_rule_membership_witness:
  "validate_field demo_lib demo_validator ''answer'' ''  yes '' 7 = Inr None
   \<and> validate_field demo_lib demo_validator ''answer'' ''maybe'' 7 =
       Inr (Some \<lparr>f_row = 7, f_column = ''answer'', f_value = ''maybe'',
                   f_error = ''Must be one of: Yes, No'',
                   f_severity = ''error''\<rparr>)
   \<and> validate_field demo_lib demo_validator ''answers'' ''yes'' 7 =
       Inr (Some \<lparr>f_row = 7, f_column = ''answers'', f_value = ''yes'',
                   f_error = ''Must be one of: Yes, No, Yes'',
                   f_severity = ''error''\<rparr>)
   \<and> validate_field demo_lib demo_validator ''answers'' ''Yes'' 7 = Inr None"
proof -
  have s: "py_strip ''  yes '' = ''yes''" "py_strip ''maybe'' = ''maybe''"
    "py_strip ''yes'' = ''yes''" "py_strip ''Yes'' = ''Yes''"
    by (simp_all add: py_strip_def isspace_def whitespace_def)
  note l = lower_examples(3,5)
  have m: "must_be_one_of [''Yes'', ''No''] = ''Must be one of: Yes, No''"
    "must_be_one_of [''Yes'', ''No'', ''Yes''] = ''Must be one of: Yes, No, Yes''"
    by (simp_all add: must_be_one_of_def)
  show ?thesis
    using list_rule_membership[OF demo_lookup(2), of "[''Yes'', ''No'']" "''  yes ''" demo_lib 7]
      list_rule_membership[OF demo_lookup(2), of "[''Yes'', ''No'']" "''maybe''" demo_lib 7]
      list_rule_membership[OF demo_lookup(3), of "[''Yes'', ''No'', ''Yes'']" "''yes''" demo_lib 7]
      list_rule_membership[OF demo_lookup(3), of "[''Yes'', ''No'', ''Yes'']" "''Yes''" demo_lib 7]
    by (simp add: rule_of_type_def s l m)
qed

text \<open>
  C5 as it was stated fails for a list that repeats an entry: the allowed values
  \<open>Yes\<close>, \<open>No\<close>, \<open>Yes\<close> are exactly the set of \<open>Yes\<close> and \<open>No\<close>, but the list has three
  entries, the comparison is as the values stand, and \<open>yes\<close> gets a finding.
\<close>

theorem yes_no_repeated_counterexample:
  "validations demo_validator ''answers'' =
      Some ((rule_of_type ''list'')\<lparr>r_values := Some [''Yes'', ''No'', ''Yes'']\<rparr>)
   \<and> set [''Yes'', ''No'', ''Yes''] = {''Yes'', ''No''}
   \<and> validate_field demo_lib demo_validator ''answers'' ''yes'' 7 =
       Inr (Some \<lparr>f_row = 7, f_column = ''answers'', f_value = ''yes'',
                  f_error = ''Must be one of: Yes, No, Yes'', f_severity = ''error''\<rparr>)"
proof -
  have r: "r_type ((rule_of_type ''list'')\<lparr>r_values := Some [''Yes'', ''No'', ''Yes'']\<rparr>) = Some ''list''"
    by (simp add: rule_of_type_def)
  have n: "py_strip ''yes'' \<noteq> []" "py_strip ''yes'' = ''yes''"
    by (simp_all add: py_strip_def isspace_def whitespace_def)
  have "validate_field demo_lib demo_validator ''answers'' ''yes'' 7 =
      list_validation ((rule_of_type ''list'')\<lparr>r_values := Some [''Yes'', ''No'', ''Yes'']\<rparr>)
        ''answers'' (py_strip ''yes'') 7"
    using validate_field_typed[OF demo_lookup(3) r n(1), of demo_lib 7] by simp
  then have "validate_field demo_lib demo_validator ''answers'' ''yes'' 7 =
       Inr (Some \<lparr>f_row = 7, f_column = ''answers'', f_value = ''yes'',
                  f_error = ''Must be one of: Yes, No, Yes'', f_severity = ''error''\<rparr>)"
    by (simp add: n(2) list_validation_def rule_of_type_def must_be_one_of_def)
  moreover have "set [''Yes'', ''No'', ''Yes''] = {''Yes'', ''No''}" by auto
  ultimately show ?thesis using demo_lookup(3) by simp
qed

lemma demo_numbers:
  "demo_float ''abc'' = None" "demo_float ''5'' = Some 5" "demo_float ''130'' = Some 130"
  "demo_float ''50'' = Some 50" "demo_str 10 = ''10''" "demo_str 120 = ''120''"
  by code_simp+

lemma strip_plain:
  "py_strip ''abc'' = ''abc''" "py_strip ''  5 '' = ''5''" "py_strip ''130'' = ''130''"
  "py_strip ''50'' = ''50''"
  by (simp_all add: py_strip_def isspace_def whitespace_def)

text \<open>
  C6. For a rule of type \<open>number\<close> and a text that is not blank: when \<open>float\<close> rejects the
  trimmed text the result is the one finding \<open>Must be a number\<close>, whatever the bounds are;
  when it gives a number below a \<open>min\<close> that is set, the finding is \<open>Value must be >= min\<close>;
  otherwise, when the number is above a \<open>max\<close> that is set, the finding is
  \<open>Value must be <= max\<close>; otherwise there is none. The minimum is tested first, and every
  finding has severity \<open>error\<close>.
\<close>

theorem number_rule:
  assumes "validations self header = Some rule" and "r_type rule = Some ''number''"
    and "py_strip v \<noteq> []"
  shows "(py_float lib (py_strip v) = None \<longrightarrow>
            validate_field lib self header v row_num =
              Inr (Some \<lparr>f_row = row_num, f_column = header, f_value = py_strip v,
                   f_error = ''Must be a number'',
                   f_severity = ''error''\<rparr>))
       \<and> (\<forall>num lo. py_float lib (py_strip v) = Some num \<and> r_min rule = Some lo \<and> py_lt lib num lo \<longrightarrow>
            validate_field lib self header v row_num =
              Inr (Some \<lparr>f_row = row_num, f_column = header, f_value = py_strip v,
                   f_error = ''Value must be >= '' @ py_str lib lo,
                   f_severity = ''error''\<rparr>))
       \<and> (\<forall>num hi. py_float lib (py_strip v) = Some num
              \<and> \<not> (\<exists>lo. r_min rule = Some lo \<and> py_lt lib num lo)
              \<and> r_max rule = Some hi \<and> py_lt lib hi num \<longrightarrow>
            validate_field lib self header v row_num =
              Inr (Some \<lparr>f_row = row_num, f_column = header, f_value = py_strip v,
                   f_error = ''Value must be <= '' @ py_str lib hi,
                   f_severity = ''error''\<rparr>))
       \<and> (\<forall>num. py_float lib (py_strip v) = Some num
              \<and> \<not> (\<exists>lo. r_min rule = Some lo \<and> py_lt lib num lo)
              \<and> \<not> (\<exists>hi. r_max rule = Some hi \<and> py_lt lib hi num) \<longrightarrow>
            validate_field lib self header v row_num = Inr None)
       \<and> (\<forall>f. validate_field lib self header v row_num = Inr (Some f) \<longrightarrow> f_severity f = ''error'')"
proof -
  have vf: "validate_field lib self header v row_num =
              number_validation lib rule header (py_strip v) row_num"
    using assms by (simp add: validate_field_typed)
  show ?thesis
    unfolding vf
    by (auto simp: number_validation_def max_check_def
          split: option.splits if_splits)
qed

theorem number_rule_witness:
  "validate_field demo_lib demo_validator ''age'' ''abc'' 3 =
     Inr (Some \<lparr>f_row = 3, f_column = ''age'', f_value = ''abc'',
                   f_error = ''Must be a number'',
                   f_severity = ''error''\<rparr>)
   \<and> validate_field demo_lib demo_validator ''age'' ''  5 '' 3 =
     Inr (Some \<lparr>f_row = 3, f_column = ''age'', f_value = ''5'',
                   f_error = ''Value must be >= 10'',
                   f_severity = ''error''\<rparr>)
   \<and> validate_field demo_lib demo_validator ''age'' ''130'' 3 =
     Inr (Some \<lparr>f_row = 3, f_column = ''age'', f_value = ''130'',
                   f_error = ''Value must be <= 120'',
                   f_severity = ''error''\<rparr>)
   \<and> validate_field demo_lib demo_validator ''age'' ''50'' 3 = Inr None"
  using number_rule[OF demo_lookup(4), of "''abc''" demo_lib 3]
    number_rule[OF demo_lookup(4), of "''  5 ''" demo_lib 3]
    number_rule[OF demo_lookup(4), of "''130''" demo_lib 3]
    number_rule[OF demo_lookup(4), of "''50''" demo_lib 3]
  by (simp add: rule_of_type_def strip_plain demo_lib_def demo_numbers)

lemma eol_final_patterns:
  "eol_final date_rx" "eol_final time_rx" "eol_final bare_rx" "eol_final dotted_rx"
  "eol_final initials_rx"
  by (simp_all add: date_rx_def time_rx_def bare_rx_def dotted_rx_def initials_rx_def)

lemma date_examples:
  "re_fullmatch date_rx ''02/30/2024''"
  "\<not> re_fullmatch date_rx ''13/01/2024''"
  "\<not> re_fullmatch date_rx ''1/2/2024''"
  "\<not> re_fullmatch date_rx ''13/45/2024''"
  by code_simp+

lemma strip_dates:
  "py_strip ''02/30/2024'' = ''02/30/2024''" "py_strip ''13/01/2024'' = ''13/01/2024''"
  "py_strip ''1/2/2024'' = ''1/2/2024''" "py_strip ''13/45/2024'' = ''13/45/2024''"
  "py_strip padded_date = ''02/30/2024''"
  by (simp_all add: py_strip_def isspace_def whitespace_def padded_date_def)

text \<open>
  C7. For a rule of type \<open>date\<close> and a text that is not blank, there is no finding exactly
  when the whole trimmed text matches
  \<^verbatim>\<open>^(0[1-9]|1[0-2])/(0[1-9]|[12][0-9]|3[01])/\d{4}$\<close>; otherwise the finding is an error
  that names the expected format. In the words of the specification: there is no finding
  exactly when the trimmed text is two digits from 01 to 12, a slash, two digits from 01
  to 31, a slash and four digits. So \<open>02/30/2024\<close> is accepted, and \<open>13/01/2024\<close> and
  \<open>1/2/2024\<close> each give an error. (The code calls \<open>re.match\<close>, for which \<open>$\<close> also matches
  before a final line feed; the trimmed text has none.)
\<close>

theorem date_rule:
  assumes "validations self header = Some rule" and "r_type rule = Some ''date''"
    and "py_strip v \<noteq> []"
  shows "validate_field lib self header v row_num =
           (if re_fullmatch date_rx (py_strip v) then Inr None
            else Inr (Some \<lparr>f_row = row_num, f_column = header, f_value = py_strip v,
                   f_error = ''Invalid date format. Expected '' @
                     (case r_format rule of Some f \<Rightarrow> f | None \<Rightarrow> ''MM/DD/YYYY''),
                   f_severity = ''error''\<rparr>))
         \<and> (validate_field lib self header v row_num = Inr None) = date_shape (py_strip v)
         \<and> (v = ''02/30/2024'' \<longrightarrow> validate_field lib self header v row_num = Inr None)
         \<and> (v = ''13/01/2024'' \<or> v = ''1/2/2024'' \<longrightarrow>
              (\<exists>f. validate_field lib self header v row_num = Inr (Some f)
                   \<and> f_severity f = ''error''))"
proof -
  have vf: "validate_field lib self header v row_num =
              date_validation rule header (py_strip v) row_num"
    using assms by (simp add: validate_field_typed)
  have m: "re_match date_rx (py_strip v) = re_fullmatch date_rx (py_strip v)"
    by (rule match_is_fullmatch[OF eol_final_patterns(1) strip_no_trailing_space])
  have c1: "validate_field lib self header v row_num =
           (if re_fullmatch date_rx (py_strip v) then Inr None
            else Inr (Some \<lparr>f_row = row_num, f_column = header, f_value = py_strip v,
                   f_error = ''Invalid date format. Expected '' @
                     (case r_format rule of Some f \<Rightarrow> f | None \<Rightarrow> ''MM/DD/YYYY''),
                   f_severity = ''error''\<rparr>))"
    by (simp add: vf date_validation_def m)
  have c2: "v = ''02/30/2024'' \<longrightarrow> validate_field lib self header v row_num = Inr None"
  proof
    assume "v = ''02/30/2024''"
    then have "re_fullmatch date_rx (py_strip v)" by (simp add: strip_dates date_examples)
    with c1 show "validate_field lib self header v row_num = Inr None" by simp
  qed
  have c3: "v = ''13/01/2024'' \<or> v = ''1/2/2024'' \<longrightarrow>
              (\<exists>f. validate_field lib self header v row_num = Inr (Some f)
                   \<and> f_severity f = ''error'')"
  proof
    assume "v = ''13/01/2024'' \<or> v = ''1/2/2024''"
    then have "\<not> re_fullmatch date_rx (py_strip v)"
      by (elim disjE) (simp_all add: strip_dates date_examples)
    with c1 show "\<exists>f. validate_field lib self header v row_num = Inr (Some f)
                   \<and> f_severity f = ''error''"
      by simp
  qed
  have c4: "(validate_field lib self header v row_num = Inr None) = date_shape (py_strip v)"
    unfolding c1 fullmatch_date_shape by simp
  from c1 c4 c2 c3 show ?thesis by (intro conjI)
qed

theorem date_rule_witness:
  "validate_field demo_lib demo_validator ''event_date'' ''02/30/2024'' 2 = Inr None
   \<and> validate_field demo_lib demo_validator ''event_date'' ''13/45/2024'' 2 =
       Inr (Some \<lparr>f_row = 2, f_column = ''event_date'', f_value = ''13/45/2024'',
                   f_error = ''Invalid date format. Expected MM/DD/YYYY'',
                   f_severity = ''error''\<rparr>)
   \<and> validate_field demo_lib demo_validator ''event_date'' padded_date 2
       = Inr None"
  using date_rule[OF demo_lookup(1), of "''02/30/2024''" demo_lib 2]
    date_rule[OF demo_lookup(1), of "''13/45/2024''" demo_lib 2]
    date_rule[OF demo_lookup(1), of padded_date demo_lib 2]
  by (simp add: rule_of_type_def strip_dates date_examples)







lemma re_match_Alt: "re_match (Alt a b) s = (re_match a s \<or> re_match b s)"
  by (simp add: re_match_def)

lemma subject_examples:
  "map_option s_type (validate_subject_id ''unknown'' n) = Some ''unknown''"
  "map_option s_type (validate_subject_id ''UNK'' n) = Some ''unknown''"
  "map_option s_type (validate_subject_id ''John Doe'' n) = Some ''name''"
  "validate_subject_id ''JD'' n = None"
  "validate_subject_id ''J.D.'' n = None"
  "validate_subject_id ''J.D.S'' n = None"
  "validate_subject_id ''J'' n = None"
  "map_option s_type (validate_subject_id ''123'' n) = Some ''invalid''"
  by code_simp+

text \<open>
  C3 as amended. For a text that is not blank, \<open>_validate_subject_id\<close> trims it and takes
  the first of these that applies: in lower case it is \<open>unknown\<close> or \<open>unk\<close>, type \<open>unknown\<close>;
  it contains a blank character (U+0020) and splits at whitespace into two or more parts
  of which one is longer than 3 characters, type \<open>name\<close>; it matches neither
  \<^verbatim>\<open>^[A-Za-z]{1,4}$\<close> nor \<^verbatim>\<open>^[A-Za-z](\.[A-Za-z])*\.?$\<close>, type \<open>invalid\<close>; otherwise there is
  no finding. So \<open>unknown\<close> and \<open>UNK\<close> give \<open>unknown\<close>, \<open>John Doe\<close> gives \<open>name\<close>, \<open>JD\<close>,
  \<open>J.D.\<close>, \<open>J.D.S\<close> and \<open>J\<close> give no finding, and \<open>123\<close> gives \<open>invalid\<close>.
\<close>

theorem subject_id_priority:
  assumes "py_strip v \<noteq> []"
  shows \<open>validate_subject_id v n =
           (if py_lower (py_strip v) = ''unknown'' \<or> py_lower (py_strip v) = ''unk'' then
              Some \<lparr>s_row = n, s_value = py_strip v, s_type = ''unknown'',
                    s_error = ''Subject ID should not be "unknown"''\<rparr>
            else if CHR '' '' \<in> set (py_strip v) \<and> 2 \<le> length (py_split (py_strip v)) \<and>
                    (\<exists>p \<in> set (py_split (py_strip v)). 3 < length p) then
              Some \<lparr>s_row = n, s_value = py_strip v, s_type = ''name'',
                    s_error = ''Subject ID appears to be a full name. Use initials instead''\<rparr>
            else if \<not> re_match bare_rx (py_strip v) \<and> \<not> re_match dotted_rx (py_strip v) then
              Some \<lparr>s_row = n, s_value = py_strip v, s_type = ''invalid'',
                    s_error = ''Subject ID must be initials (e.g., "JD", "J.D.", "J.D.S")''\<rparr>
            else None)
         \<and> map_option s_type (validate_subject_id ''unknown'' n) = Some ''unknown''
         \<and> map_option s_type (validate_subject_id ''UNK'' n) = Some ''unknown''
         \<and> map_option s_type (validate_subject_id ''John Doe'' n) = Some ''name''
         \<and> validate_subject_id ''JD'' n = None
         \<and> validate_subject_id ''J.D.'' n = None
         \<and> validate_subject_id ''J.D.S'' n = None
         \<and> validate_subject_id ''J'' n = None
         \<and> map_option s_type (validate_subject_id ''123'' n) = Some ''invalid''\<close>
proof -
  from assms have "v \<noteq> []" by (auto simp: py_strip_def)
  with assms have \<open>validate_subject_id v n =
           (if py_lower (py_strip v) = ''unknown'' \<or> py_lower (py_strip v) = ''unk'' then
              Some \<lparr>s_row = n, s_value = py_strip v, s_type = ''unknown'',
                    s_error = ''Subject ID should not be "unknown"''\<rparr>
            else if CHR '' '' \<in> set (py_strip v) \<and> 2 \<le> length (py_split (py_strip v)) \<and>
                    (\<exists>p \<in> set (py_split (py_strip v)). 3 < length p) then
              Some \<lparr>s_row = n, s_value = py_strip v, s_type = ''name'',
                    s_error = ''Subject ID appears to be a full name. Use initials instead''\<rparr>
            else if \<not> re_match bare_rx (py_strip v) \<and> \<not> re_match dotted_rx (py_strip v) then
              Some \<lparr>s_row = n, s_value = py_strip v, s_type = ''invalid'',
                    s_error = ''Subject ID must be initials (e.g., "JD", "J.D.", "J.D.S")''\<rparr>
            else None)\<close>
    by (simp add: validate_subject_id_def Let_def initials_rx_def re_match_Alt list_ex_iff) blast
  with subject_examples[of n] show ?thesis by (intro conjI)
qed

lemma tabbed_facts:
  "py_strip tabbed_name = tabbed_name"
  "py_split tabbed_name = [''John'', ''Doe'']"
  "CHR 0x09 \<in> set tabbed_name"
  "isspace (CHR 0x09)"
  "tabbed_name \<noteq> []"
  "py_lower tabbed_name \<noteq> ''unknown''"
  "py_lower tabbed_name \<noteq> ''unk''"
  "map_option s_type (validate_subject_id tabbed_name 2) = Some ''invalid''"
  by code_simp+

theorem subject_id_priority_witness:
  "map_option s_type (validate_subject_id ''  J.D. '' 5) = None
   \<and> map_option s_type (validate_subject_id ''Mary Ann Smith'' 5) = Some ''name''
   \<and> map_option s_type (validate_subject_id tabbed_name 5) = Some ''invalid''
   \<and> validate_subject_id padded_initials 5 = None"
proof -
  have s: "py_strip ''  J.D. '' = ''J.D.''" "py_strip ''Mary Ann Smith'' = ''Mary Ann Smith''"
    "py_strip padded_initials = ''JD''"
    by (simp_all add: py_strip_def isspace_def whitespace_def padded_initials_def)
  have jd: "py_lower ''JD'' = ''jd''" "re_match bare_rx ''JD''"
    by code_simp+
  have l: "py_lower ''J.D.'' = ''j.d.''" "py_lower ''Mary Ann Smith'' = ''mary ann smith''"
    "py_lower tabbed_name = ''john'' @ [CHR 0x09] @ ''doe''"
    by code_simp+
  have sp: "py_split ''J.D.'' = [''J.D.'']" "py_split ''Mary Ann Smith'' = [''Mary'', ''Ann'', ''Smith'']"
    by code_simp+
  have m: "re_match dotted_rx ''J.D.''" "\<not> re_match bare_rx tabbed_name"
    "\<not> re_match dotted_rx tabbed_name" "CHR '' '' \<notin> set tabbed_name"
    by code_simp+
  have a: "map_option s_type (validate_subject_id ''  J.D. '' 5) = None"
    using subject_id_priority[of "''  J.D. ''" 5] by (simp add: s l sp m)
  have b: "map_option s_type (validate_subject_id ''Mary Ann Smith'' 5) = Some ''name''"
    using subject_id_priority[of "''Mary Ann Smith''" 5] by (simp add: s l sp)
  have c: "map_option s_type (validate_subject_id tabbed_name 5) = Some ''invalid''"
    using subject_id_priority[of tabbed_name 5] by (simp add: tabbed_facts(1,5) l m)
  have d: "validate_subject_id padded_initials 5 = None"
    using subject_id_priority[of padded_initials 5] by (simp add: s jd)
  from a b c d show ?thesis by (intro conjI)
qed

text \<open>
  C3 as it was stated asks for whitespace where the code asks for a blank: a name whose
  words are separated by a tab contains whitespace, splits into two parts, one of them
  longer than 3 characters, and is not \<open>unknown\<close> or \<open>unk\<close>; yet its type is \<open>invalid\<close>, not
  \<open>name\<close>.
\<close>

theorem subject_id_tab_counterexample:
  "py_strip tabbed_name = tabbed_name
   \<and> CHR 0x09 \<in> set tabbed_name \<and> isspace (CHR 0x09)
   \<and> py_split tabbed_name = [''John'', ''Doe''] \<and> 3 < length ''John''
   \<and> py_lower tabbed_name \<noteq> ''unknown'' \<and> py_lower tabbed_name \<noteq> ''unk''
   \<and> map_option s_type (validate_subject_id tabbed_name 2) = Some ''invalid''"
  using tabbed_facts by simp

section \<open>Properties of a run\<close>

lemma list_validation_ok:
  "r_values rule \<noteq> None \<Longrightarrow> \<exists>r. list_validation rule header val n = Inr r"
  by (auto simp: list_validation_def)

lemma pattern_validation_ok:
  "r_pattern rule = Some p \<Longrightarrow> \<forall>s. py_re_match lib p s \<noteq> None \<Longrightarrow>
     \<exists>r. pattern_validation lib rule header val n = Inr r"
  by (auto simp: pattern_validation_def split: option.splits bool.splits)

lemma number_validation_ok: "\<exists>r. number_validation lib rule header val n = Inr r"
  by (auto simp: number_validation_def max_check_def split: option.splits)

lemma validate_field_ok:
  assumes "\<And>rule. validations self header = Some rule \<Longrightarrow> rule_ok lib rule"
  shows "\<exists>r. validate_field lib self header v n = Inr r"
proof (cases "validations self header")
  case None
  then show ?thesis by (simp add: validate_field_def)
next
  case (Some rule)
  from assms[OF Some] have ok: "rule_ok lib rule" .
  show ?thesis
  proof (cases "v = [] \<or> py_strip v = [] \<or> is_empty_rule rule")
    case True
    with Some show ?thesis by (auto simp: validate_field_def)
  next
    case False
    with ok obtain t where t: "r_type rule = Some t"
      by (auto simp: rule_ok_def split: option.splits)
    from False have ne: "py_strip v \<noteq> []" by simp
    note vf = validate_field_typed[OF Some t ne, of lib n]
    consider "t = ''list''" | "t = ''date''" | "t = ''time''" | "t = ''number''"
      | "t = ''pattern''"
      | "t \<notin> set [''list'', ''date'', ''time'', ''number'', ''pattern'']"
      by auto
    then show ?thesis
    proof cases
      case 1
      with ok t False have "r_values rule \<noteq> None" by (simp add: rule_ok_def)
      from list_validation_ok[OF this] 1 show ?thesis by (simp add: vf)
    next
      case 2 then show ?thesis by (simp add: vf date_validation_def)
    next
      case 3 then show ?thesis by (simp add: vf time_validation_def)
    next
      case 4 with number_validation_ok show ?thesis by (simp add: vf)
    next
      case 5
      with ok t False obtain p where "r_pattern rule = Some p" "\<forall>s. py_re_match lib p s \<noteq> None"
        by (auto simp: rule_ok_def split: option.splits)
      from pattern_validation_ok[OF this] 5 show ?thesis by (simp add: vf)
    next
      case 6 then show ?thesis by (simp add: vf)
    qed
  qed
qed

lemma field_validation_total_rows:
  "field_validation lib self r n hs dv = Inr dv' \<Longrightarrow> total_rows dv' = total_rows dv"
proof (induction hs arbitrary: dv)
  case Nil then show ?case by simp
next
  case (Cons h hs)
  then show ?case
    by (auto split: if_splits sum.splits option.splits)
qed

lemma field_validation_ok:
  assumes "\<And>h rule. validations self h = Some rule \<Longrightarrow> rule_ok lib rule"
  shows "\<exists>dv'. field_validation lib self r n hs dv = Inr dv'"
proof (induction hs arbitrary: dv)
  case Nil then show ?case by simp
next
  case (Cons h hs)
  from validate_field_ok[of self h lib "case r h of None \<Rightarrow> [] | Some v \<Rightarrow> v" n] assms
  obtain x where x: "validate_field lib self h (case r h of None \<Rightarrow> [] | Some v \<Rightarrow> v) n = Inr x"
    by blast
  show ?case
  proof (cases "validations self h \<noteq> None")
    case False then show ?thesis using Cons.IH by simp
  next
    case True
    show ?thesis
    proof (cases x)
      case None with True x Cons.IH show ?thesis by simp
    next
      case (Some f) with True x Cons.IH show ?thesis by simp
    qed
  qed
qed

lemma row_processing_frame:
  "row_processing lib self hs n rows res = Inr r \<Longrightarrow>
     file_name r = file_name res \<and> timestamp r = timestamp res \<and>
     header_validation r = header_validation res"
proof (induction rows arbitrary: n res)
  case Nil then show ?case by simp
next
  case (Cons x xs)
  then show ?case by (auto simp: Let_def split: sum.splits)
qed

lemma row_processing_total_rows:
  "row_processing lib self hs n rows res = Inr r \<Longrightarrow>
     total_rows (data_validation r) = total_rows (data_validation res) + length rows"
proof (induction rows arbitrary: n res)
  case Nil then show ?case by simp
next
  case (Cons x xs)
  from Cons.prems obtain dv2 where
    f: "field_validation lib self x n hs
          ((data_validation res)\<lparr>total_rows := total_rows (data_validation res) + 1\<rparr>) = Inr dv2"
    and rp: "row_processing lib self hs (Suc n) xs
          (res\<lparr>data_validation := dv2,
               subject_id_validation :=
                 special_validation_subject_id x n (subject_id_validation res)\<rparr>) = Inr r"
    by (auto simp: Let_def split: sum.splits)
  from field_validation_total_rows[OF f] Cons.IH[OF rp] show ?case by simp
qed

lemma row_processing_ok:
  assumes "\<And>h rule. validations self h = Some rule \<Longrightarrow> rule_ok lib rule"
  shows "\<exists>r. row_processing lib self hs n rows res = Inr r"
proof (induction rows arbitrary: n res)
  case Nil then show ?case by simp
next
  case (Cons x xs)
  from field_validation_ok[of self lib x n hs] assms
  obtain dv2 where "field_validation lib self x n hs
          ((data_validation res)\<lparr>total_rows := total_rows (data_validation res) + 1\<rparr>) = Inr dv2"
    by blast
  with Cons.IH show ?case by (simp add: Let_def)
qed

lemma validate_csv_ok:
  assumes "\<And>h rule. validations self h = Some rule \<Longrightarrow> rule_ok lib rule"
  shows "\<exists>res. validate_csv env lib self name (Some hs) rows = Inr res"
  using row_processing_ok[of self lib hs 2 rows] assms
  by (simp add: validate_csv_def Let_def)

lemma scenario_rules_ok: "validations scenario_validator h = Some rule \<Longrightarrow> rule_ok demo_lib rule"
  by (auto simp: scenario_validator_def rule_ok_def rule_of_type_def split: if_splits)

text \<open>
  C9. When \<open>validate_csv\<close> returns its results, \<open>total_rows\<close> is the number of rows the
  reader gave. And it does return them, for a file with a header line and whatever the
  rows hold, when every rule of the template can be evaluated (\<open>rule_ok\<close>).
\<close>

theorem total_rows_counts_rows:
  "(\<forall>res. validate_csv env lib self name fieldnames rows = Inr res \<longrightarrow>
        total_rows (data_validation res) = length rows)
   \<and> ((\<forall>h rule. validations self h = Some rule \<longrightarrow> rule_ok lib rule) \<longrightarrow>
        (\<forall>hs. fieldnames = Some hs \<longrightarrow>
           (\<exists>res. validate_csv env lib self name fieldnames rows = Inr res)))"
proof (intro conjI allI impI)
  fix res assume "validate_csv env lib self name fieldnames rows = Inr res"
  then obtain hs where
    "row_processing lib self hs 2 rows
       ((initial_results name (now env))
          \<lparr>header_validation := header_check (list_of env) (headers self) hs\<rparr>) = Inr res"
    by (auto simp: validate_csv_def Let_def split: option.splits)
  from row_processing_total_rows[OF this]
  show "total_rows (data_validation res) = length rows"
    by (simp add: initial_results_def)
next
  fix hs
  assume ok: "\<forall>h rule. validations self h = Some rule \<longrightarrow> rule_ok lib rule"
    and "fieldnames = Some hs"
  with validate_csv_ok[of self lib env name hs rows]
  show "\<exists>res. validate_csv env lib self name fieldnames rows = Inr res" by blast
qed

theorem total_rows_counts_rows_witness:
  "\<exists>res. validate_csv demo_env demo_lib scenario_validator ''may.csv'' (Some scenario_headers)
           [demo_row, unknown_row, demo_row] = Inr res
         \<and> total_rows (data_validation res) = 3"
proof -
  from total_rows_counts_rows[of demo_env demo_lib scenario_validator "''may.csv''"
      "Some scenario_headers" "[demo_row, unknown_row, demo_row]"] scenario_rules_ok
  show ?thesis by fastforce
qed

lemma validate_csv_header:
  assumes "validate_csv env lib self name (Some hs) rows = Inr res"
  shows "header_validation res = header_check (list_of env) (headers self) hs"
    and "timestamp res = now env" and "file_name res = name"
proof -
  from assms have
    "row_processing lib self hs 2 rows
       ((initial_results name (now env))
          \<lparr>header_validation := header_check (list_of env) (headers self) hs\<rparr>) = Inr res"
    by (simp add: validate_csv_def Let_def)
  from row_processing_frame[OF this]
  show "header_validation res = header_check (list_of env) (headers self) hs"
    and "timestamp res = now env" and "file_name res = name"
    by (simp_all add: initial_results_def)
qed

lemma header_check_sets:
  assumes "enumerates f"
  shows "set (matching (header_check f e a)) = set e \<inter> set a"
    and "set (missing (header_check f e a)) = set e - set a"
    and "set (extra (header_check f e a)) = set a - set e"
    and "is_valid (header_check f e a) = (missing (header_check f e a) = [])"
    and "distinct (matching (header_check f e a))"
    and "distinct (missing (header_check f e a))"
    and "distinct (extra (header_check f e a))"
  using assms by (simp_all add: header_check_def enumerates_def Let_def)

lemma demo_enumerates: "enumerates (list_of demo_env)" "enumerates (list_of demo_env_later)"
  by (simp_all add: enumerates_def demo_env_def demo_env_later_def demo_list_of_def)

text \<open>
  C2. In the results of a run, whatever order the interpreter lists a set in, \<open>matching\<close>
  lists the columns that the template expects and the file has, \<open>missing\<close> those it expects
  and the file lacks, \<open>extra\<close> those the file has beyond them, each once. Hence \<open>matching\<close>
  and \<open>missing\<close> together are the expected columns, \<open>matching\<close> and \<open>extra\<close> the file's,
  \<open>matching\<close> and \<open>missing\<close> share none, and \<open>is_valid\<close> holds exactly when \<open>missing\<close> is
  empty, that is when the file has every expected column, whatever \<open>extra\<close> holds.
\<close>

theorem header_comparison:
  assumes "enumerates (list_of env)"
    and "validate_csv env lib self name (Some csv_headers) rows = Inr res"
  shows "set (matching (header_validation res)) = set (headers self) \<inter> set csv_headers
       \<and> set (missing (header_validation res)) = set (headers self) - set csv_headers
       \<and> set (extra (header_validation res)) = set csv_headers - set (headers self)
       \<and> set (matching (header_validation res)) \<union> set (missing (header_validation res))
           = set (headers self)
       \<and> set (matching (header_validation res)) \<union> set (extra (header_validation res))
           = set csv_headers
       \<and> set (matching (header_validation res)) \<inter> set (missing (header_validation res)) = {}
       \<and> is_valid (header_validation res) = (set (missing (header_validation res)) = {})
       \<and> is_valid (header_validation res) = (set (headers self) \<subseteq> set csv_headers)
       \<and> distinct (matching (header_validation res))
       \<and> distinct (missing (header_validation res))
       \<and> distinct (extra (header_validation res))"
proof -
  note hv = validate_csv_header(1)[OF assms(2)]
  note hc = header_check_sets[OF assms(1), of "headers self" csv_headers]
  have v: "is_valid (header_check (list_of env) (headers self) csv_headers) =
             (set (missing (header_check (list_of env) (headers self) csv_headers)) = {})"
    using hc(4) by simp
  have w: "(set (missing (header_check (list_of env) (headers self) csv_headers)) = {}) =
             (set (headers self) \<subseteq> set csv_headers)"
    unfolding hc(2) by auto
  show ?thesis unfolding hv
    using hc(1,2,3,5,6,7) v w by (intro conjI) (simp_all, auto)
qed

theorem header_comparison_witness:
  "\<exists>res. validate_csv demo_env demo_lib scenario_validator ''may.csv'' (Some scenario_headers)
           [demo_row] = Inr res
         \<and> set (matching (header_validation res)) = {''subject_id'', ''event_date''}
         \<and> missing (header_validation res) = []
         \<and> set (extra (header_validation res)) = {''notes''}
         \<and> is_valid (header_validation res)"
proof -
  from validate_csv_ok[of scenario_validator demo_lib demo_env "''may.csv''" scenario_headers
      "[demo_row]"] scenario_rules_ok
  obtain res where res: "validate_csv demo_env demo_lib scenario_validator ''may.csv''
      (Some scenario_headers) [demo_row] = Inr res"
    by blast
  have h: "headers scenario_validator = [''subject_id'', ''event_date'']"
    by (simp add: scenario_validator_def)
  from header_comparison[OF demo_enumerates(1) res]
  have "set (matching (header_validation res)) = {''subject_id'', ''event_date''}
      \<and> missing (header_validation res) = []
      \<and> set (extra (header_validation res)) = {''notes''}
      \<and> is_valid (header_validation res)"
    unfolding h scenario_headers_def by auto
  with res show ?thesis by blast
qed

lemma validate_subject_id_type:
  "validate_subject_id v n = Some res \<Longrightarrow>
     s_type res = ''unknown'' \<or> s_type res = ''name'' \<or> s_type res = ''invalid''"
  by (auto simp: validate_subject_id_def Let_def split: if_splits)

lemma subject_results_type:
  "x \<in> set (subject_results n rows) \<Longrightarrow>
     s_type x = ''unknown'' \<or> s_type x = ''name'' \<or> s_type x = ''invalid''"
proof (induction rows arbitrary: n)
  case Nil then show ?case by simp
next
  case (Cons r rs)
  then show ?case
    by (auto split: option.splits dest: validate_subject_id_type)
qed

lemma three_types_count:
  assumes "\<And>x. x \<in> set fs \<Longrightarrow>
            s_type x = ''unknown'' \<or> s_type x = ''name'' \<or> s_type x = ''invalid''"
  shows "length (filter (\<lambda>x. s_type x = ''unknown'') fs)
       + length (filter (\<lambda>x. s_type x = ''name'') fs)
       + length (filter (\<lambda>x. s_type x = ''invalid'') fs) = length fs"
  using assms
proof (induction fs)
  case Nil then show ?case by simp
next
  case (Cons f fs)
  from Cons.prems[of f]
  have "s_type f = ''unknown'' \<or> s_type f = ''name'' \<or> s_type f = ''invalid''" by simp
  moreover have "length (filter (\<lambda>x. s_type x = ''unknown'') fs)
       + length (filter (\<lambda>x. s_type x = ''name'') fs)
       + length (filter (\<lambda>x. s_type x = ''invalid'') fs) = length fs"
    using Cons by simp
  ultimately show ?case by (elim disjE) simp_all
qed

lemma counted_step:
  assumes "counted sv fs"
    and "s_type res = ''unknown'' \<or> s_type res = ''name'' \<or> s_type res = ''invalid''"
  shows "counted (let sv' = count_subject res sv
                  in if length (examples sv') < 5 then sv'\<lparr>examples := examples sv' @ [res]\<rparr>
                     else sv') (fs @ [res])"
proof -
  have ex: "examples (count_subject res sv) = examples sv"
    by (simp add: count_subject_def)
  have t: "(if length (take 5 fs) < 5 then take 5 fs @ [res] else take 5 fs) = take 5 (fs @ [res])"
    by (cases "length fs < 5") simp_all
  from assms(2) show ?thesis
    using assms(1) t
    by (elim disjE) (simp_all add: counted_def Let_def count_subject_def)
qed

lemma special_validation_counted:
  assumes "counted sv fs"
  shows "counted (special_validation_subject_id r n sv) (fs @ subject_results n [r])"
proof (cases "r ''subject_id''")
  case None
  with assms show ?thesis by (simp add: special_validation_subject_id_def)
next
  case (Some v)
  show ?thesis
  proof (cases "validate_subject_id v n")
    case None
    with Some assms show ?thesis by (simp add: special_validation_subject_id_def)
  next
    case (Some res)
    from counted_step[OF assms validate_subject_id_type[OF Some]] Some \<open>r ''subject_id'' = Some v\<close>
    show ?thesis by (simp add: special_validation_subject_id_def)
  qed
qed

lemma subject_results_Cons:
  "subject_results n (r # rs) = subject_results n [r] @ subject_results (Suc n) rs"
  by (simp split: option.splits)

lemma row_processing_counted:
  "row_processing lib self hs n rows res = Inr r \<Longrightarrow> counted (subject_id_validation res) fs \<Longrightarrow>
     counted (subject_id_validation r) (fs @ subject_results n rows)"
proof (induction rows arbitrary: n res fs)
  case Nil then show ?case by simp
next
  case (Cons x xs)
  from Cons.prems(1) obtain dv2 where
    rp: "row_processing lib self hs (Suc n) xs
          (res\<lparr>data_validation := dv2,
               subject_id_validation :=
                 special_validation_subject_id x n (subject_id_validation res)\<rparr>) = Inr r"
    by (auto simp: Let_def split: sum.splits)
  have "counted (special_validation_subject_id x n (subject_id_validation res))
          (fs @ subject_results n [x])"
    by (rule special_validation_counted[OF Cons.prems(2)])
  with Cons.IH[OF rp, of "fs @ subject_results n [x]"]
  have "counted (subject_id_validation r)
          ((fs @ subject_results n [x]) @ subject_results (Suc n) xs)" by simp
  then show ?case by (simp only: subject_results_Cons[of n x xs] append_assoc)
qed

lemma row_processing_prefix:
  "row_processing lib self hs n (xs @ ys) res = Inr r \<Longrightarrow>
     \<exists>mid. row_processing lib self hs n xs res = Inr mid"
proof (induction xs arbitrary: n res)
  case Nil then show ?case by simp
next
  case (Cons x xs)
  then show ?case by (auto simp: Let_def split: sum.splits)
qed

lemma validate_csv_prefix:
  assumes "validate_csv env lib self name fieldnames rows = Inr res"
  shows "\<exists>mid. validate_csv env lib self name fieldnames (take k rows) = Inr mid"
proof -
  from assms obtain hs where hs: "fieldnames = Some hs"
    by (auto simp: validate_csv_def Let_def split: option.splits)
  from assms hs have
    "row_processing lib self hs 2 (take k rows @ drop k rows)
       ((initial_results name (now env))
          \<lparr>header_validation := header_check (list_of env) (headers self) hs\<rparr>) = Inr res"
    by (simp add: validate_csv_def Let_def)
  from row_processing_prefix[OF this] hs show ?thesis
    by (simp add: validate_csv_def Let_def)
qed

lemma validate_csv_counted:
  assumes "validate_csv env lib self name fieldnames rows = Inr res"
  shows "counted (subject_id_validation res) (subject_results 2 rows)"
proof -
  from assms obtain hs where
    rp: "row_processing lib self hs 2 rows
       ((initial_results name (now env))
          \<lparr>header_validation := header_check (list_of env) (headers self) hs\<rparr>) = Inr res"
    by (auto simp: validate_csv_def Let_def split: option.splits)
  have "counted (subject_id_validation ((initial_results name (now env))
          \<lparr>header_validation := header_check (list_of env) (headers self) hs\<rparr>)) []"
    by (simp add: counted_def initial_results_def)
  from row_processing_counted[OF rp this] show ?thesis by simp
qed

text \<open>
  C4. Take a run that returns its results. After each of its rows, that is in the results
  of the run on the first \<open>k\<close> rows for every \<open>k\<close>, the examples are the first five subject
  results so far, so there are never more than 5 of them; each of the three counts is the
  number of subject results so far of its type, and the three counts add up to the number
  of all subject results so far: each of them, retained as an example or not, is counted
  exactly once.
\<close>

theorem examples_capped:
  assumes "validate_csv env lib self name fieldnames rows = Inr res"
  shows "\<forall>k \<le> length rows. \<exists>mid.
           validate_csv env lib self name fieldnames (take k rows) = Inr mid
         \<and> length (examples (subject_id_validation mid)) \<le> 5
         \<and> examples (subject_id_validation mid) = take 5 (subject_results 2 (take k rows))
         \<and> unknown_count (subject_id_validation mid) =
             length (filter (\<lambda>x. s_type x = ''unknown'') (subject_results 2 (take k rows)))
         \<and> name_count (subject_id_validation mid) =
             length (filter (\<lambda>x. s_type x = ''name'') (subject_results 2 (take k rows)))
         \<and> invalid_count (subject_id_validation mid) =
             length (filter (\<lambda>x. s_type x = ''invalid'') (subject_results 2 (take k rows)))
         \<and> unknown_count (subject_id_validation mid) + name_count (subject_id_validation mid)
             + invalid_count (subject_id_validation mid)
             = length (subject_results 2 (take k rows))"
proof (intro allI impI)
  fix k assume "k \<le> length rows"
  from validate_csv_prefix[OF assms, of k] obtain mid where
    mid: "validate_csv env lib self name fieldnames (take k rows) = Inr mid" by blast
  from validate_csv_counted[OF mid]
  have c: "counted (subject_id_validation mid) (subject_results 2 (take k rows))" .
  have s: "length (filter (\<lambda>x. s_type x = ''unknown'') (subject_results 2 (take k rows)))
       + length (filter (\<lambda>x. s_type x = ''name'') (subject_results 2 (take k rows)))
       + length (filter (\<lambda>x. s_type x = ''invalid'') (subject_results 2 (take k rows)))
       = length (subject_results 2 (take k rows))"
    by (rule three_types_count) (rule subject_results_type)
  from c s mid
  show "\<exists>mid. validate_csv env lib self name fieldnames (take k rows) = Inr mid
         \<and> length (examples (subject_id_validation mid)) \<le> 5
         \<and> examples (subject_id_validation mid) = take 5 (subject_results 2 (take k rows))
         \<and> unknown_count (subject_id_validation mid) =
             length (filter (\<lambda>x. s_type x = ''unknown'') (subject_results 2 (take k rows)))
         \<and> name_count (subject_id_validation mid) =
             length (filter (\<lambda>x. s_type x = ''name'') (subject_results 2 (take k rows)))
         \<and> invalid_count (subject_id_validation mid) =
             length (filter (\<lambda>x. s_type x = ''invalid'') (subject_results 2 (take k rows)))
         \<and> unknown_count (subject_id_validation mid) + name_count (subject_id_validation mid)
             + invalid_count (subject_id_validation mid)
             = length (subject_results 2 (take k rows))"
    by (intro exI[of _ mid]) (simp add: counted_def)
qed

lemma seven_rows_results:
  "length (take 5 (subject_results 2 seven_rows)) = 5"
  "length (filter (\<lambda>x. s_type x = ''unknown'') (subject_results 2 seven_rows)) = 5"
  "length (filter (\<lambda>x. s_type x = ''name'') (subject_results 2 seven_rows)) = 2"
  "length (filter (\<lambda>x. s_type x = ''invalid'') (subject_results 2 seven_rows)) = 0"
  by code_simp+

lemma seven_rows_length: "length seven_rows = 7" "take 7 seven_rows = seven_rows"
  by (simp_all add: seven_rows_def)

theorem examples_capped_witness:
  "\<exists>res. validate_csv demo_env demo_lib scenario_validator ''may.csv'' (Some scenario_headers)
           seven_rows = Inr res
         \<and> length (examples (subject_id_validation res)) = 5
         \<and> unknown_count (subject_id_validation res) = 5
         \<and> name_count (subject_id_validation res) = 2
         \<and> invalid_count (subject_id_validation res) = 0"
proof -
  from validate_csv_ok[of scenario_validator demo_lib demo_env "''may.csv''" scenario_headers
      seven_rows] scenario_rules_ok
  obtain res where res: "validate_csv demo_env demo_lib scenario_validator ''may.csv''
      (Some scenario_headers) seven_rows = Inr res"
    by blast
  from examples_capped[OF res] seven_rows_length(1)
  obtain mid where m: "validate_csv demo_env demo_lib scenario_validator ''may.csv''
      (Some scenario_headers) (take 7 seven_rows) = Inr mid"
    and e: "examples (subject_id_validation mid) = take 5 (subject_results 2 (take 7 seven_rows))"
    and u: "unknown_count (subject_id_validation mid) =
             length (filter (\<lambda>x. s_type x = ''unknown'') (subject_results 2 (take 7 seven_rows)))"
    and n: "name_count (subject_id_validation mid) =
             length (filter (\<lambda>x. s_type x = ''name'') (subject_results 2 (take 7 seven_rows)))"
    and i: "invalid_count (subject_id_validation mid) =
             length (filter (\<lambda>x. s_type x = ''invalid'') (subject_results 2 (take 7 seven_rows)))"
    by (metis order_refl)
  have "length (examples (subject_id_validation mid)) = 5"
    unfolding e seven_rows_length(2) by (rule seven_rows_results(1))
  moreover have "unknown_count (subject_id_validation mid) = 5"
    unfolding u seven_rows_length(2) by (rule seven_rows_results(2))
  moreover have "name_count (subject_id_validation mid) = 2"
    unfolding n seven_rows_length(2) by (rule seven_rows_results(3))
  moreover have "invalid_count (subject_id_validation mid) = 0"
    unfolding i seven_rows_length(2) by (rule seven_rows_results(4))
  moreover from m have "validate_csv demo_env demo_lib scenario_validator ''may.csv''
      (Some scenario_headers) seven_rows = Inr mid"
    by (simp only: seven_rows_length(2))
  ultimately show ?thesis by blast
qed

lemma row_processing_core:
  assumes "data_validation res = data_validation res'"
    and "subject_id_validation res = subject_id_validation res'"
  shows "(\<forall>e. row_processing lib self hs n rows res = Inl e \<longleftrightarrow>
              row_processing lib self hs n rows res' = Inl e)
       \<and> (\<forall>r r'. row_processing lib self hs n rows res = Inr r \<and>
                 row_processing lib self hs n rows res' = Inr r' \<longrightarrow>
                 data_validation r = data_validation r' \<and>
                 subject_id_validation r = subject_id_validation r')"
  using assms
proof (induction rows arbitrary: n res res')
  case Nil
  then show ?case by simp
next
  case (Cons x xs)
  define dv1 where
    "dv1 = (data_validation res)\<lparr>total_rows := total_rows (data_validation res) + 1\<rparr>"
  define sv1 where
    "sv1 = special_validation_subject_id x n (subject_id_validation res)"
  have u1: "row_processing lib self hs n (x # xs) res =
      (case field_validation lib self x n hs dv1 of
         Inl e \<Rightarrow> Inl e
       | Inr dv2 \<Rightarrow> row_processing lib self hs (Suc n) xs
           (res\<lparr>data_validation := dv2, subject_id_validation := sv1\<rparr>))"
    unfolding dv1_def sv1_def by (simp add: Let_def)
  have u2: "row_processing lib self hs n (x # xs) res' =
      (case field_validation lib self x n hs dv1 of
         Inl e \<Rightarrow> Inl e
       | Inr dv2 \<Rightarrow> row_processing lib self hs (Suc n) xs
           (res'\<lparr>data_validation := dv2, subject_id_validation := sv1\<rparr>))"
    unfolding dv1_def sv1_def Cons.prems by (simp add: Let_def)
  show ?case
  proof (cases "field_validation lib self x n hs dv1")
    case (Inl e)
    show ?thesis unfolding u1 u2 Inl by simp
  next
    case (Inr dv2)
    have "data_validation (res\<lparr>data_validation := dv2, subject_id_validation := sv1\<rparr>)
        = data_validation (res'\<lparr>data_validation := dv2, subject_id_validation := sv1\<rparr>)"
      and "subject_id_validation (res\<lparr>data_validation := dv2, subject_id_validation := sv1\<rparr>)
        = subject_id_validation (res'\<lparr>data_validation := dv2, subject_id_validation := sv1\<rparr>)"
      by simp_all
    from Cons.IH[OF this, of "Suc n"] show ?thesis
      unfolding u1 u2 Inr sum.case .
  qed
qed

lemma same_set_same_length:
  "distinct xs \<Longrightarrow> distinct ys \<Longrightarrow> set xs = set ys \<Longrightarrow> length xs = length ys"
  using distinct_card[of xs] distinct_card[of ys] by simp

text \<open>
  C1 as amended. Two runs of \<open>validate_csv\<close> with the same template, file name, header
  line and rows, whatever the clock shows and in whatever order the interpreter lists
  a set: both raise the same exception or both return results; the results have the same
  \<open>data_validation\<close> (errors, warnings, \<open>total_rows\<close>), the same \<open>subject_id_validation\<close>,
  the same file name and the same \<open>is_valid\<close>; \<open>matching\<close>, \<open>missing\<close> and \<open>extra\<close> hold the
  same columns, as many of them, possibly in another order; and the \<open>timestamp\<close> of each is
  what its clock showed.
\<close>

theorem report_determined:
  assumes "enumerates (list_of env1)" and "enumerates (list_of env2)"
  shows "(\<forall>e. validate_csv env1 lib self name fieldnames rows = Inl e \<longleftrightarrow>
              validate_csv env2 lib self name fieldnames rows = Inl e)
       \<and> (\<forall>r1 r2. validate_csv env1 lib self name fieldnames rows = Inr r1 \<and>
                  validate_csv env2 lib self name fieldnames rows = Inr r2 \<longrightarrow>
             data_validation r1 = data_validation r2
           \<and> subject_id_validation r1 = subject_id_validation r2
           \<and> file_name r1 = file_name r2
           \<and> is_valid (header_validation r1) = is_valid (header_validation r2)
           \<and> set (matching (header_validation r1)) = set (matching (header_validation r2))
           \<and> set (missing (header_validation r1)) = set (missing (header_validation r2))
           \<and> set (extra (header_validation r1)) = set (extra (header_validation r2))
           \<and> length (matching (header_validation r1)) = length (matching (header_validation r2))
           \<and> length (missing (header_validation r1)) = length (missing (header_validation r2))
           \<and> length (extra (header_validation r1)) = length (extra (header_validation r2))
           \<and> timestamp r1 = now env1 \<and> timestamp r2 = now env2)"
proof (cases fieldnames)
  case None
  then show ?thesis by (simp add: validate_csv_def Let_def)
next
  case (Some hs)
  let ?start = "\<lambda>env. (initial_results name (now env))
          \<lparr>header_validation := header_check (list_of env) (headers self) hs\<rparr>"
  have v: "validate_csv env lib self name fieldnames rows =
             row_processing lib self hs 2 rows (?start env)" for env
    by (simp add: validate_csv_def Let_def Some)
  have "data_validation (?start env1) = data_validation (?start env2)"
    and "subject_id_validation (?start env1) = subject_id_validation (?start env2)"
    by (simp_all add: initial_results_def)
  note core = row_processing_core[OF this, of lib self hs 2 rows]
  have c1: "\<forall>e. validate_csv env1 lib self name fieldnames rows = Inl e \<longleftrightarrow>
              validate_csv env2 lib self name fieldnames rows = Inl e"
    unfolding v using core by blast
  have c2: "\<forall>r1 r2. validate_csv env1 lib self name fieldnames rows = Inr r1 \<and>
                  validate_csv env2 lib self name fieldnames rows = Inr r2 \<longrightarrow>
             data_validation r1 = data_validation r2
           \<and> subject_id_validation r1 = subject_id_validation r2
           \<and> file_name r1 = file_name r2
           \<and> is_valid (header_validation r1) = is_valid (header_validation r2)
           \<and> set (matching (header_validation r1)) = set (matching (header_validation r2))
           \<and> set (missing (header_validation r1)) = set (missing (header_validation r2))
           \<and> set (extra (header_validation r1)) = set (extra (header_validation r2))
           \<and> length (matching (header_validation r1)) = length (matching (header_validation r2))
           \<and> length (missing (header_validation r1)) = length (missing (header_validation r2))
           \<and> length (extra (header_validation r1)) = length (extra (header_validation r2))
           \<and> timestamp r1 = now env1 \<and> timestamp r2 = now env2"
  proof (intro allI impI)
    fix r1 r2
    assume a: "validate_csv env1 lib self name fieldnames rows = Inr r1 \<and>
               validate_csv env2 lib self name fieldnames rows = Inr r2"
    then have a1: "validate_csv env1 lib self name (Some hs) rows = Inr r1"
      and a2: "validate_csv env2 lib self name (Some hs) rows = Inr r2"
      by (simp_all add: Some)
    note h1 = validate_csv_header[OF a1] and h2 = validate_csv_header[OF a2]
    note s1 = header_check_sets[OF assms(1), of "headers self" hs]
      and s2 = header_check_sets[OF assms(2), of "headers self" hs]
    from a core have d: "data_validation r1 = data_validation r2"
      "subject_id_validation r1 = subject_id_validation r2"
      unfolding v by blast+
    have m: "set (matching (header_validation r1)) = set (matching (header_validation r2))"
      "set (missing (header_validation r1)) = set (missing (header_validation r2))"
      "set (extra (header_validation r1)) = set (extra (header_validation r2))"
      unfolding h1(1) h2(1) s1(1-3) s2(1-3) by (rule refl)+
    have l: "length (matching (header_validation r1)) = length (matching (header_validation r2))"
      "length (missing (header_validation r1)) = length (missing (header_validation r2))"
      "length (extra (header_validation r1)) = length (extra (header_validation r2))"
      using m s1(5-7) s2(5-7) unfolding h1(1) h2(1)
      by (auto intro: same_set_same_length)
    have i: "is_valid (header_validation r1) = is_valid (header_validation r2)"
      using l(2) unfolding h1(1) h2(1) s1(4) s2(4) by auto
    from d m l i h1(2,3) h2(2,3)
    show "data_validation r1 = data_validation r2
           \<and> subject_id_validation r1 = subject_id_validation r2
           \<and> file_name r1 = file_name r2
           \<and> is_valid (header_validation r1) = is_valid (header_validation r2)
           \<and> set (matching (header_validation r1)) = set (matching (header_validation r2))
           \<and> set (missing (header_validation r1)) = set (missing (header_validation r2))
           \<and> set (extra (header_validation r1)) = set (extra (header_validation r2))
           \<and> length (matching (header_validation r1)) = length (matching (header_validation r2))
           \<and> length (missing (header_validation r1)) = length (missing (header_validation r2))
           \<and> length (extra (header_validation r1)) = length (extra (header_validation r2))
           \<and> timestamp r1 = now env1 \<and> timestamp r2 = now env2"
      by simp
  qed
  from c1 c2 show ?thesis by (intro conjI)
qed

lemma demo_clocks: "now demo_env \<noteq> now demo_env_later"
  by (simp add: demo_env_def demo_env_later_def)

theorem report_determined_witness:
  "\<exists>r1 r2. validate_csv demo_env demo_lib scenario_validator ''may.csv''
              (Some scenario_headers) [demo_row] = Inr r1
         \<and> validate_csv demo_env_later demo_lib scenario_validator ''may.csv''
              (Some scenario_headers) [demo_row] = Inr r2
         \<and> data_validation r1 = data_validation r2
         \<and> subject_id_validation r1 = subject_id_validation r2
         \<and> set (extra (header_validation r1)) = set (extra (header_validation r2))
         \<and> timestamp r1 = now demo_env \<and> timestamp r2 = now demo_env_later"
proof -
  from validate_csv_ok[of scenario_validator demo_lib demo_env "''may.csv''" scenario_headers
      "[demo_row]"] scenario_rules_ok
  obtain r1 where r1: "validate_csv demo_env demo_lib scenario_validator ''may.csv''
      (Some scenario_headers) [demo_row] = Inr r1"
    by blast
  from validate_csv_ok[of scenario_validator demo_lib demo_env_later "''may.csv''" scenario_headers
      "[demo_row]"] scenario_rules_ok
  obtain r2 where r2: "validate_csv demo_env_later demo_lib scenario_validator ''may.csv''
      (Some scenario_headers) [demo_row] = Inr r2"
    by blast
  from report_determined[OF demo_enumerates, of demo_lib scenario_validator "''may.csv''"
      "Some scenario_headers" "[demo_row]"] r1 r2
  show ?thesis by blast
qed

text \<open>
  C1 as it was stated fails: the results hold a timestamp, so two runs on the same input
  at different times return different results.
\<close>

theorem report_timestamp_counterexample:
  "map_sum id timestamp (validate_csv demo_env demo_lib scenario_validator ''may.csv''
       (Some scenario_headers) [demo_row]) = Inr ''2024-05-01T10:00:00.000000''
   \<and> map_sum id timestamp (validate_csv demo_env_later demo_lib scenario_validator ''may.csv''
       (Some scenario_headers) [demo_row]) = Inr ''2024-05-01T10:00:07.000000''
   \<and> validate_csv demo_env demo_lib scenario_validator ''may.csv''
       (Some scenario_headers) [demo_row]
     \<noteq> validate_csv demo_env_later demo_lib scenario_validator ''may.csv''
       (Some scenario_headers) [demo_row]"
proof -
  from validate_csv_ok[of scenario_validator demo_lib demo_env "''may.csv''" scenario_headers
      "[demo_row]"] scenario_rules_ok
  obtain r1 where r1: "validate_csv demo_env demo_lib scenario_validator ''may.csv''
      (Some scenario_headers) [demo_row] = Inr r1"
    by blast
  from validate_csv_ok[of scenario_validator demo_lib demo_env_later "''may.csv''" scenario_headers
      "[demo_row]"] scenario_rules_ok
  obtain r2 where r2: "validate_csv demo_env_later demo_lib scenario_validator ''may.csv''
      (Some scenario_headers) [demo_row] = Inr r2"
    by blast
  have t1: "timestamp r1 = ''2024-05-01T10:00:00.000000''"
    using validate_csv_header(2)[OF r1] by (simp add: demo_env_def)
  have t2: "timestamp r2 = ''2024-05-01T10:00:07.000000''"
    using validate_csv_header(2)[OF r2] by (simp add: demo_env_later_def)
  from t1 t2 have "r1 \<noteq> r2" by auto
  with t1 t2 show ?thesis unfolding r1 r2 by simp
qed

text \<open>
  The scenario of the specification, evaluated: one row with the subject \<open>John Doe\<close> and
  the date \<open>13/45/2024\<close>, in a file with the extra column \<open>notes\<close>.
\<close>

lemma scenario_run:
  "validate_csv demo_env demo_lib scenario_validator ''may.csv'' (Some scenario_headers) [demo_row] =
     Inr \<lparr>file_name = ''may.csv'', timestamp = ''2024-05-01T10:00:00.000000'',
          header_validation =
            \<lparr>matching = [''event_date'', ''subject_id''], missing = [], extra = [''notes''],
             is_valid = True\<rparr>,
          data_validation =
            \<lparr>errors = [\<lparr>f_row = 2, f_column = ''event_date'', f_value = ''13/45/2024'',
                   f_error = ''Invalid date format. Expected MM/DD/YYYY'',
                   f_severity = ''error''\<rparr>],
             warnings = [], total_rows = 1\<rparr>,
          subject_id_validation =
            \<lparr>unknown_count = 0, name_count = 1, invalid_count = 0,
             examples = [\<lparr>s_row = 2, s_value = ''John Doe'', s_type = ''name'',
                          s_error = ''Subject ID appears to be a full name. Use initials instead''\<rparr>]\<rparr>\<rparr>"
  by code_simp

end
